theory Spec2Isabelle
  imports Main
begin

section \<open>Values of the host platform\<close>

text \<open>
  A value handed to \<open>reject\<close> or thrown. \<open>JsError m\<close> is \<open>new Error(m)\<close> (the errors the
  service itself creates, and those of the remote client and of \<open>fetch\<close>);
  \<open>ProgressEvent\<close> is the event object the file reader hands to \<open>reader.onerror\<close>, which
  has no \<open>message\<close> property.
\<close>

datatype thrown = JsError string | ProgressEvent

fun message :: "thrown \<Rightarrow> string option" where
  "message (JsError m) = Some m"
| "message ProgressEvent = None"

text \<open>
  The settlement of an awaited promise. \<open>Pending\<close> stands for a promise that has not
  settled within the number of poll iterations the model was allowed to run.
\<close>

datatype 'a promise = Pending | Resolved 'a | Rejected thrown

text \<open>JavaScript truthiness of a \<open>string | null | undefined\<close> value.\<close>

fun truthy :: "string option \<Rightarrow> bool" where
  "truthy None = False"
| "truthy (Some s) = (s \<noteq> [])"

text \<open>\<open>String.prototype.split\<close> with a one-character separator: it never returns an
  empty array, and \<open>"".split(",")\<close> is \<open>[""]\<close>.\<close>

fun split :: "char \<Rightarrow> string \<Rightarrow> string list" where
  "split sep [] = [[]]"
| "split sep (c # cs) =
     (if c = sep then [] # split sep cs
      else (case split sep cs of
              [] \<Rightarrow> [[c]]
            | w # ws \<Rightarrow> (c # w) # ws))"

text \<open>Array indexing: reading past the end gives \<open>undefined\<close>.\<close>

definition js_index :: "'a list \<Rightarrow> nat \<Rightarrow> 'a option" where
  "js_index xs i = (if i < length xs then Some (xs ! i) else None)"

text \<open>\<open>String.prototype.includes\<close>.\<close>

fun starts_with :: "string \<Rightarrow> string \<Rightarrow> bool" where
  "starts_with s [] = True"
| "starts_with [] (p # ps) = False"
| "starts_with (c # cs) (p # ps) = (c = p \<and> starts_with cs ps)"

fun str_includes :: "string \<Rightarrow> string \<Rightarrow> bool" where
  "str_includes [] sub = (sub = [])"
| "str_includes (c # cs) sub = (starts_with (c # cs) sub \<or> str_includes cs sub)"

text \<open>A value interpolated into a template literal; \<open>undefined\<close> prints as the word.\<close>

fun template :: "string option \<Rightarrow> string" where
  "template None = ''undefined''"
| "template (Some s) = s"

section \<open>Data of the generation service\<close>

text \<open>The two values of \<open>AspectRatio\<close> that the application offers.\<close>

datatype AspectRatio = Ratio_16_9 | Ratio_9_16

text \<open>A \<open>File\<close>: its name and its \<open>type\<close> property. What reading it yields is the
  platform's business, see \<open>readAsDataURL\<close> below.\<close>

record File =
  file_name :: string
  file_type :: string

text \<open>What the \<open>FileReader\<close> reports: \<open>onload\<close> with \<open>reader.result\<close> a string or
  something else (\<open>null\<close>, an \<open>ArrayBuffer\<close>), or \<open>onerror\<close>.\<close>

datatype reader_result = ResultString string | ResultOther

datatype reader_outcome = OnLoad reader_result | OnError

text \<open>The argument of \<open>ai.models.generateVideos\<close>. Its \<open>prompt\<close> and \<open>aspectRatio\<close>
  keys are \<open>req_prompt\<close> and \<open>cfg_aspectRatio\<close> here, to keep them apart from the state
  variables of the component.\<close>

record image_part =
  imageBytes :: "string option"
  mimeType :: string

record video_config =
  numberOfVideos :: nat
  resolution :: string
  cfg_aspectRatio :: AspectRatio

record request =
  model :: string
  req_prompt :: string
  image :: image_part
  config :: video_config

text \<open>
  The operation handle of the remote client, with every property the optional chain
  \<open>operation.response?.generatedVideos?.[0]?.video?.uri\<close> may find absent.
\<close>

record video =
  uri :: "string option"

record generated_video =
  video :: "video option"

record videos_response =
  generatedVideos :: "generated_video list option"

record operation =
  op_name :: string
  op_done :: bool
  response :: "videos_response option"

text \<open>The reply to \<open>fetch\<close>. \<open>ok\<close> is the platform's reading of the status; \<open>blob\<close> is
  what awaiting \<open>videoResponse.blob()\<close> gives, the bytes of the body or a rejection.\<close>

record http_response =
  status :: nat
  statusText :: string
  blob :: "thrown + string"

definition ok :: "http_response \<Rightarrow> bool" where
  "ok r = (200 \<le> status r \<and> status r \<le> 299)"

text \<open>
  Everything outside the program: the credential in \<open>process.env.API_KEY\<close>, the file
  reader, the remote generation service, \<open>fetch\<close> and \<open>URL.createObjectURL\<close>. The remote
  service is stateful, so the reply to a poll may depend on which poll it is: the first
  argument of \<open>getVideosOperation\<close> is the number of the poll, counted from 1. The
  credential is a string that stays the same during a run; constructing the remote client
  (lines 39 and 63) has no effect of its own.
\<close>

record env =
  API_KEY :: string
  readAsDataURL :: "File \<Rightarrow> reader_outcome"
  generateVideos :: "request \<Rightarrow> thrown + operation"
  getVideosOperation :: "nat \<Rightarrow> operation \<Rightarrow> thrown + operation"
  fetch :: "string \<Rightarrow> thrown + http_response"
  createObjectURL :: "string \<Rightarrow> string"

text \<open>What the program does to the outside, in order, each call with its reply.\<close>

datatype event =
    EvRead File reader_outcome
  | EvProgress string
  | EvSubmit request "thrown + operation"
  | EvWait nat
  | EvPoll operation "thrown + operation"
  | EvFetch string "thrown + http_response"
  | EvObjectURL string string
  | EvConsoleError thrown

section \<open>The generation service\<close>

definition fileToBase64 :: "env \<Rightarrow> File \<Rightarrow> string option promise" where
  "fileToBase64 e f =
     (case readAsDataURL e f of
        OnLoad (ResultString s) \<Rightarrow> Resolved (js_index (split CHR '','' s) 1)
      | OnLoad ResultOther \<Rightarrow> Rejected (JsError ''Failed to read file as base64 string.'')
      | OnError \<Rightarrow> Rejected ProgressEvent)"

definition LOADING_MESSAGES :: "string list" where
  "LOADING_MESSAGES =
    [''Warming up the video engine...'',
     ''Contacting creative AI director...'',
     ''Storyboarding your prompt...'',
     ''Setting up the virtual cameras...'',
     ''Rendering initial frames (this can take a few minutes)...'',
     ''Applying cinematic lighting and effects...'',
     ''Your vision is materializing, please wait...'',
     ''Enhancing color and texture...'',
     ''Adding the final touches to your masterpiece...'',
     ''Almost there, compiling the final video file...'']"

definition make_request :: "string \<Rightarrow> string option \<Rightarrow> File \<Rightarrow> AspectRatio \<Rightarrow> request" where
  "make_request p imageBase64 imageFile ratio =
     \<lparr>model = ''veo-3.1-fast-generate-preview'',
      req_prompt = p,
      image = \<lparr>imageBytes = imageBase64, mimeType = file_type imageFile\<rparr>,
      config = \<lparr>numberOfVideos = 1, resolution = ''720p'', cfg_aspectRatio = ratio\<rparr>\<rparr>"

text \<open>
  The \<open>while (!operation.done)\<close> loop. The first argument bounds the number of
  iterations the model runs; when it is used up on a handle that is still not done the
  run is \<open>Pending\<close>, and the events so far are kept. \<open>pollCount\<close> is a natural number
  (the source's double is exact far beyond any poll count that 10-second waits reach).
\<close>

fun poll_loop :: "nat \<Rightarrow> env \<Rightarrow> nat \<Rightarrow> operation \<Rightarrow> event list \<times> operation promise" where
  "poll_loop 0 e pollCount oper =
     (if op_done oper then ([], Resolved oper) else ([], Pending))"
| "poll_loop (Suc fuel) e pollCount oper =
     (if op_done oper then ([], Resolved oper)
      else
        (let progress = EvProgress (LOADING_MESSAGES ! (pollCount mod length LOADING_MESSAGES));
             reply = getVideosOperation e pollCount oper;
             evs = [progress, EvWait 10000, EvPoll oper reply]
         in (case reply of
               Inl err \<Rightarrow> (evs, Rejected err)
             | Inr oper' \<Rightarrow>
                 (case poll_loop fuel e (pollCount + 1) oper' of
                    (tr, r) \<Rightarrow> (evs @ tr, r)))))"

text \<open>\<open>operation.response?.generatedVideos?.[0]?.video?.uri\<close>.\<close>

definition downloadLink :: "operation \<Rightarrow> string option" where
  "downloadLink oper =
     (case response oper of
        None \<Rightarrow> None
      | Some resp \<Rightarrow>
          (case generatedVideos resp of
             None \<Rightarrow> None
           | Some gvs \<Rightarrow>
               (case js_index gvs 0 of
                  None \<Rightarrow> None
                | Some gv \<Rightarrow>
                    (case video gv of
                       None \<Rightarrow> None
                     | Some v \<Rightarrow> uri v))))"

text \<open>Lines 67 to 81: what follows the loop, once it has left with a done handle.\<close>

definition download :: "env \<Rightarrow> operation \<Rightarrow> event list \<times> string promise" where
  "download e oper =
     (let link = downloadLink oper in
      if \<not> truthy link
      then ([], Rejected (JsError ''Video generation completed, but no download link was found.''))
      else
        (let url = template link @ ''&key='' @ API_KEY e;
             reply = fetch e url;
             evs = [EvProgress ''Downloading your generated video...'', EvFetch url reply]
         in (case reply of
               Inl err \<Rightarrow> (evs, Rejected err)
             | Inr videoResponse \<Rightarrow>
                 if \<not> ok videoResponse
                 then (evs, Rejected (JsError (''Failed to download video: '' @ statusText videoResponse)))
                 else
                   (case blob videoResponse of
                      Inl err \<Rightarrow> (evs, Rejected err)
                    | Inr videoBlob \<Rightarrow>
                        (let ref = createObjectURL e videoBlob
                         in (evs @ [EvObjectURL videoBlob ref], Resolved ref))))))"

definition generateVideo ::
  "nat \<Rightarrow> env \<Rightarrow> string \<Rightarrow> File \<Rightarrow> AspectRatio \<Rightarrow> event list \<times> string promise" where
  "generateVideo fuel e p imageFile ratio =
     (let r0 = [EvRead imageFile (readAsDataURL e imageFile)] in
      case fileToBase64 e imageFile of
        Pending \<Rightarrow> (r0, Pending)
      | Rejected err \<Rightarrow> (r0, Rejected err)
      | Resolved imageBase64 \<Rightarrow>
          (let req = make_request p imageBase64 imageFile ratio;
               submitted = generateVideos e req;
               r1 = r0 @ [EvProgress (LOADING_MESSAGES ! 0), EvSubmit req submitted]
           in (case submitted of
                 Inl err \<Rightarrow> (r1, Rejected err)
               | Inr oper \<Rightarrow>
                   (case poll_loop fuel e 1 oper of
                      (tr, Pending) \<Rightarrow> (r1 @ tr, Pending)
                    | (tr, Rejected err) \<Rightarrow> (r1 @ tr, Rejected err)
                    | (tr, Resolved oper') \<Rightarrow>
                        (case download e oper' of
                           (tr', r) \<Rightarrow> (r1 @ tr @ tr', r))))))"

section \<open>The component\<close>

text \<open>The state variables of \<open>App\<close>, one field for each \<open>useState\<close>.\<close>

record app_state =
  apiKeySelected :: bool
  prompt :: string
  imageFile :: "File option"
  previewUrl :: "string option"
  aspectRatio :: AspectRatio
  isLoading :: bool
  loadingMessage :: string
  generatedVideoUrl :: "string option"
  error :: "string option"

text \<open>\<open>onProgress\<close> is \<open>setLoadingMessage\<close>: each progress event of a run sets the
  loading message.\<close>

fun setLoadingMessage_of :: "event \<Rightarrow> app_state \<Rightarrow> app_state" where
  "setLoadingMessage_of (EvProgress m) s = s\<lparr>loadingMessage := m\<rparr>"
| "setLoadingMessage_of _ s = s"

definition forward_progress :: "event list \<Rightarrow> app_state \<Rightarrow> app_state" where
  "forward_progress tr s = foldl (\<lambda>s ev. setLoadingMessage_of ev s) s tr"

text \<open>The \<open>catch\<close> block (lines 136 to 143), with \<open>e.message || 'An unknown error
  occurred.'\<close> as a function of its own, and the \<open>finally\<close> block (lines 144 to 147).\<close>

definition errorMessage_of :: "thrown \<Rightarrow> string" where
  "errorMessage_of err =
     (case message err of
        None \<Rightarrow> ''An unknown error occurred.''
      | Some m \<Rightarrow> if m = [] then ''An unknown error occurred.'' else m)"

definition catch_block :: "thrown \<Rightarrow> app_state \<Rightarrow> app_state" where
  "catch_block err s =
     (let errorMessage = errorMessage_of err
      in if str_includes errorMessage ''Requested entity was not found''
         then s\<lparr>apiKeySelected := False,
                error := Some ''Your API key is invalid or has been revoked. Please select a new key.''\<rparr>
         else s\<lparr>error := Some errorMessage\<rparr>)"

definition finally_block :: "app_state \<Rightarrow> app_state" where
  "finally_block s = s\<lparr>isLoading := False, loadingMessage := []\<rparr>"

text \<open>
  \<open>handleGenerateVideo\<close> returns the events of the attempt, the state the setters leave,
  and whether the handler has finished (\<open>Pending\<close> while the generation call has not
  settled). It catches everything, so it never rejects.
\<close>

definition handleGenerateVideo ::
  "nat \<Rightarrow> env \<Rightarrow> app_state \<Rightarrow> event list \<times> app_state \<times> unit promise" where
  "handleGenerateVideo fuel e s =
     (case imageFile s of
        None \<Rightarrow> ([], s\<lparr>error := Some ''Please upload an image first.''\<rparr>, Resolved ())
      | Some f \<Rightarrow>
          if \<not> apiKeySelected s
          then ([], s\<lparr>error := Some ''Please select an API key before generating a video.''\<rparr>,
                Resolved ())
          else
            (let s1 = s\<lparr>isLoading := True, error := None, generatedVideoUrl := None\<rparr> in
             case generateVideo fuel e (prompt s) f (aspectRatio s) of
               (tr, Pending) \<Rightarrow> (tr, forward_progress tr s1, Pending)
             | (tr, Resolved videoUrl) \<Rightarrow>
                 (tr, finally_block ((forward_progress tr s1)\<lparr>generatedVideoUrl := Some videoUrl\<rparr>),
                  Resolved ())
             | (tr, Rejected err) \<Rightarrow>
                 (tr @ [EvConsoleError err],
                  finally_block (catch_block err (forward_progress tr s1)), Resolved ())))"

text \<open>The \<open>onClick\<close> of the "Create Another Video" button (lines 209 to 215).\<close>

definition reset :: "app_state \<Rightarrow> app_state" where
  "reset s = s\<lparr>generatedVideoUrl := None, imageFile := None, previewUrl := None,
               prompt := [], error := None\<rparr>"

text \<open>
  What the component renders, as far as the workflow goes: the key selector overlay
  (line 152), the main panel (lines 159 to 167), the error banner (line 169) and the one
  button at the bottom (lines 207 to 228), which is either "Create Another Video" or
  "Generate Video" with its \<open>disabled\<close> flag.
\<close>

datatype panel = VideoPanel string | LoadingPanel string | UploadPanel "string option"

datatype button = CreateAnotherVideo | GenerateVideo bool

definition shows_ApiKeySelector :: "app_state \<Rightarrow> bool" where
  "shows_ApiKeySelector s = (\<not> apiKeySelected s)"

definition main_panel :: "app_state \<Rightarrow> panel" where
  "main_panel s =
     (if truthy (generatedVideoUrl s) then VideoPanel (the (generatedVideoUrl s))
      else if isLoading s then LoadingPanel (loadingMessage s)
      else UploadPanel (previewUrl s))"

definition error_banner :: "app_state \<Rightarrow> string option" where
  "error_banner s = (if truthy (error s) then error s else None)"

definition bottom_button :: "app_state \<Rightarrow> button" where
  "bottom_button s =
     (if truthy (generatedVideoUrl s) then CreateAnotherVideo
      else GenerateVideo (isLoading s \<or> imageFile s = None \<or> \<not> apiKeySelected s))"

text \<open>A click on the bottom button: the handler of whichever button is rendered; a
  disabled button does nothing.\<close>

definition click_bottom_button ::
  "nat \<Rightarrow> env \<Rightarrow> app_state \<Rightarrow> event list \<times> app_state \<times> unit promise" where
  "click_bottom_button fuel e s =
     (case bottom_button s of
        CreateAnotherVideo \<Rightarrow> ([], reset s, Resolved ())
      | GenerateVideo disabled \<Rightarrow>
          if disabled then ([], s, Resolved ()) else handleGenerateVideo fuel e s)"

text \<open>The reset as a user action: it exists only where its button is rendered.\<close>

definition user_reset :: "app_state \<Rightarrow> app_state option" where
  "user_reset s = (if bottom_button s = CreateAnotherVideo then Some (reset s) else None)"

text \<open>
  The workflow states the design names, read off the state variables in the order the
  render tests them: a video reference, once the attempt is over, shows the result
  (Ready); without one and with the loading flag down the form is shown, with an error
  banner (Failed) or without one (Idle).
\<close>

definition is_Ready :: "app_state \<Rightarrow> bool" where
  "is_Ready s = (truthy (generatedVideoUrl s) \<and> \<not> isLoading s)"

definition is_Failed :: "app_state \<Rightarrow> bool" where
  "is_Failed s = (\<not> truthy (generatedVideoUrl s) \<and> \<not> isLoading s \<and> truthy (error s))"

definition is_Idle :: "app_state \<Rightarrow> bool" where
  "is_Idle s = (\<not> truthy (generatedVideoUrl s) \<and> \<not> isLoading s \<and> \<not> truthy (error s))"

section \<open>Reading a run's events\<close>

fun is_progress :: "event \<Rightarrow> bool" where
  "is_progress (EvProgress m) = True"
| "is_progress _ = False"

fun is_submit :: "event \<Rightarrow> bool" where
  "is_submit (EvSubmit req rep) = True"
| "is_submit _ = False"

fun is_wait :: "event \<Rightarrow> bool" where
  "is_wait (EvWait ms) = True"
| "is_wait _ = False"

fun is_poll :: "event \<Rightarrow> bool" where
  "is_poll (EvPoll h rep) = True"
| "is_poll _ = False"

fun is_fetch :: "event \<Rightarrow> bool" where
  "is_fetch (EvFetch url rep) = True"
| "is_fetch _ = False"

text \<open>The operation handle an event hands back to the program, if it does.\<close>

fun observed :: "event \<Rightarrow> operation option" where
  "observed (EvSubmit req (Inr h)) = Some h"
| "observed (EvPoll h0 (Inr h)) = Some h"
| "observed _ = None"

definition observed_done :: "event \<Rightarrow> bool" where
  "observed_done ev = (case observed ev of None \<Rightarrow> False | Some h \<Rightarrow> op_done h)"

text \<open>The handles a run has observed, in order.\<close>

definition observed_handles :: "event list \<Rightarrow> operation list" where
  "observed_handles tr = List.map_filter observed tr"

section \<open>Scenarios\<close>

text \<open>
  Concrete runs on which the theorems below are exercised: a photo, a remote service
  that answers two polls with a running handle and the third with a finished one, and
  variations of it (a finished handle with an empty result list, a refused download, a
  rejected submission, an unreadable file, a reader whose string has no comma, and one
  whose string has a comma inside the media type).
\<close>

definition photo :: File where
  "photo = \<lparr>file_name = ''photo.jpg'', file_type = ''image/jpeg''\<rparr>"

definition running_handle :: operation where
  "running_handle = \<lparr>op_name = ''operations/1'', op_done = False, response = None\<rparr>"

definition finished_handle :: operation where
  "finished_handle =
     \<lparr>op_name = ''operations/1'', op_done = True,
      response = Some \<lparr>generatedVideos =
        Some [\<lparr>video = Some \<lparr>uri = Some ''https://videos.example/1?alt=media''\<rparr>\<rparr>]\<rparr>\<rparr>"

definition empty_handle :: operation where
  "empty_handle =
     \<lparr>op_name = ''operations/1'', op_done = True,
      response = Some \<lparr>generatedVideos = Some []\<rparr>\<rparr>"

definition ok_response :: http_response where
  "ok_response = \<lparr>status = 200, statusText = ''OK'', blob = Inr ''video-bytes''\<rparr>"

definition forbidden_response :: http_response where
  "forbidden_response = \<lparr>status = 403, statusText = ''Forbidden'', blob = Inr []\<rparr>"

definition happy_env :: env where
  "happy_env =
     \<lparr>API_KEY = ''KEY'',
      readAsDataURL = (\<lambda>f. OnLoad (ResultString ''data:image/jpeg;base64,QUJD'')),
      generateVideos = (\<lambda>req. Inr running_handle),
      getVideosOperation = (\<lambda>n h. if n < 3 then Inr running_handle else Inr finished_handle),
      fetch = (\<lambda>url. Inr ok_response),
      createObjectURL = (\<lambda>blob. ''blob:video-1'')\<rparr>"

definition no_result_env :: env where
  "no_result_env = happy_env\<lparr>getVideosOperation := (\<lambda>n h. Inr empty_handle)\<rparr>"

definition forbidden_env :: env where
  "forbidden_env = happy_env\<lparr>fetch := (\<lambda>url. Inr forbidden_response)\<rparr>"

definition revoked_env :: env where
  "revoked_env =
     happy_env\<lparr>generateVideos := (\<lambda>req. Inl (JsError ''Requested entity was not found.''))\<rparr>"

definition quota_env :: env where
  "quota_env = happy_env\<lparr>generateVideos := (\<lambda>req. Inl (JsError ''Quota exceeded.''))\<rparr>"




definition happy_request :: request where
  "happy_request = make_request ''a cat running'' (Some ''QUJD'') photo Ratio_16_9"

definition happy_trace :: "event list" where
  "happy_trace =
     [EvRead photo (OnLoad (ResultString ''data:image/jpeg;base64,QUJD'')),
      EvProgress ''Warming up the video engine...'',
      EvSubmit happy_request (Inr running_handle),
      EvProgress ''Contacting creative AI director...'',
      EvWait 10000,
      EvPoll running_handle (Inr running_handle),
      EvProgress ''Storyboarding your prompt...'',
      EvWait 10000,
      EvPoll running_handle (Inr running_handle),
      EvProgress ''Setting up the virtual cameras...'',
      EvWait 10000,
      EvPoll running_handle (Inr finished_handle),
      EvProgress ''Downloading your generated video...'',
      EvFetch ''https://videos.example/1?alt=media&key=KEY'' (Inr ok_response),
      EvObjectURL ''video-bytes'' ''blob:video-1'']"

definition no_result_trace :: "event list" where
  "no_result_trace =
     [EvRead photo (OnLoad (ResultString ''data:image/jpeg;base64,QUJD'')),
      EvProgress ''Warming up the video engine...'',
      EvSubmit happy_request (Inr running_handle),
      EvProgress ''Contacting creative AI director...'',
      EvWait 10000,
      EvPoll running_handle (Inr empty_handle)]"

definition forbidden_trace :: "event list" where
  "forbidden_trace =
     take 13 happy_trace @
     [EvFetch ''https://videos.example/1?alt=media&key=KEY'' (Inr forbidden_response)]"

definition refused_trace :: "string \<Rightarrow> event list" where
  "refused_trace m =
     [EvRead photo (OnLoad (ResultString ''data:image/jpeg;base64,QUJD'')),
      EvProgress ''Warming up the video engine...'',
      EvSubmit happy_request (Inl (JsError m))]"

definition form_state :: app_state where
  "form_state =
     \<lparr>apiKeySelected = True, prompt = ''a cat running'', imageFile = Some photo,
      previewUrl = Some ''blob:preview'', aspectRatio = Ratio_16_9, isLoading = False,
      loadingMessage = [], generatedVideoUrl = None, error = None\<rparr>"

definition ready_state :: app_state where
  "ready_state = form_state\<lparr>generatedVideoUrl := Some ''blob:video-1''\<rparr>"

definition failed_state :: app_state where
  "failed_state =
     form_state\<lparr>error := Some ''Video generation completed, but no download link was found.''\<rparr>"


section \<open>The poll loop\<close>

text \<open>
One step of reasoning for every way an iteration can go: the handle is done, the
iteration budget of the model is used up, the poll is rejected, or the poll answers and
the loop goes round again.
\<close>

lemma length_LOADING_MESSAGES: "length LOADING_MESSAGES = 10"
  by (simp add: LOADING_MESSAGES_def)

lemma poll_loop_cases:
  assumes "poll_loop fuel e n h = (tr, r)"
  obtains (finished) "op_done h" "tr = []" "r = Resolved h"
  | (exhausted) "\<not> op_done h" "fuel = 0" "tr = []" "r = Pending"
  | (failed) fuel' err where "\<not> op_done h" "fuel = Suc fuel'"
      "getVideosOperation e n h = Inl err"
      "tr = [EvProgress (LOADING_MESSAGES ! (n mod 10)), EvWait 10000, EvPoll h (Inl err)]"
      "r = Rejected err"
  | (step) fuel' h' tr' where "\<not> op_done h" "fuel = Suc fuel'"
      "getVideosOperation e n h = Inr h'"
      "poll_loop fuel' e (Suc n) h' = (tr', r)"
      "tr = [EvProgress (LOADING_MESSAGES ! (n mod 10)), EvWait 10000, EvPoll h (Inr h')] @ tr'"
proof (cases "op_done h")
  case True
  with assms finished show ?thesis by (cases fuel) auto
next
  case nd: False
  show ?thesis
  proof (cases fuel)
    case 0
    with nd assms exhausted show ?thesis by auto
  next
    case (Suc fuel')
    show ?thesis
    proof (cases "getVideosOperation e n h")
      case (Inl err)
      with nd Suc assms failed show ?thesis
        by (auto simp: Let_def length_LOADING_MESSAGES)
    next
      case (Inr h')
      obtain tr' r' where rec: "poll_loop fuel' e (Suc n) h' = (tr', r')"
        by (cases "poll_loop fuel' e (Suc n) h'")
      with nd Suc Inr assms step show ?thesis
        by (auto simp: Let_def length_LOADING_MESSAGES)
    qed
  qed
qed

lemma poll_loop_events:
  "poll_loop fuel e n h = (tr, r) \<Longrightarrow> ev \<in> set tr \<Longrightarrow> is_progress ev \<or> is_wait ev \<or> is_poll ev"
proof (induction fuel arbitrary: n h tr r)
  case 0
  then show ?case by (simp split: if_splits)
next
  case (Suc fuel)
  show ?case
  proof (cases "op_done h")
    case True
    with Suc.prems show ?thesis by simp
  next
    case False
    show ?thesis
    proof (cases "getVideosOperation e n h")
      case (Inl err)
      with False Suc.prems show ?thesis by (auto simp: Let_def)
    next
      case (Inr h')
      obtain tr' r' where rec: "poll_loop fuel e (n + 1) h' = (tr', r')"
        by (cases "poll_loop fuel e (n + 1) h'")
      with False Inr Suc.prems Suc.IH[OF rec] show ?thesis
        by (auto simp: Let_def)
    qed
  qed
qed

lemma poll_loop_nonempty_undone:
  assumes "poll_loop fuel e n h = (tr, r)" "tr \<noteq> []"
  shows "\<not> op_done h"
  using assms by (cases rule: poll_loop_cases) auto

lemma poll_loop_polls:
  "poll_loop fuel e n h = (tr, r) \<Longrightarrow> tr = xs @ EvPoll h' rep # ys \<Longrightarrow>
     \<not> op_done h' \<and> (\<forall>ev\<in>set xs. \<not> observed_done ev)"
proof (induction fuel arbitrary: n h tr xs)
  case 0
  then show ?case by (auto split: if_splits)
next
  case (Suc fuel)
  from Suc.prems(1) show ?case
  proof (cases rule: poll_loop_cases)
    case finished
    with Suc.prems show ?thesis by simp
  next
    case exhausted
    then show ?thesis by simp
  next
    case (failed fuel' err)
    with Suc.prems(2) show ?thesis
      by (auto simp: append_eq_Cons_conv Cons_eq_append_conv observed_done_def)
  next
    case (step fuel' h1 tr')
    from step(5) Suc.prems(2)
    consider (here) "xs = [EvProgress (LOADING_MESSAGES ! (n mod 10)), EvWait 10000]" "h' = h"
      | (later) xs' where "xs = EvProgress (LOADING_MESSAGES ! (n mod 10)) # EvWait 10000 # EvPoll h (Inr h1) # xs'"
          "tr' = xs' @ EvPoll h' rep # ys"
      by (auto simp: append_eq_Cons_conv Cons_eq_append_conv)
    then show ?thesis
    proof cases
      case here
      with step(1) show ?thesis by (simp add: observed_done_def)
    next
      case later
      from step(2) step(4) have rec: "poll_loop fuel e (Suc n) h1 = (tr', r)" by simp
      from later(2) have "tr' \<noteq> []" by simp
      with rec have "\<not> op_done h1" by (rule poll_loop_nonempty_undone)
      with Suc.IH[OF rec later(2)] later(1) show ?thesis
        by (simp add: observed_done_def)
    qed
  qed
qed

lemma poll_loop_Resolved:
  "poll_loop fuel e n h = (tr, Resolved h') \<Longrightarrow>
     op_done h' \<and> last (h # observed_handles tr) = h'"
proof (induction fuel arbitrary: n h tr)
  case 0
  then show ?case by (auto simp: observed_handles_def split: if_splits)
next
  case (Suc fuel)
  from Suc.prems show ?case
  proof (cases rule: poll_loop_cases)
    case finished
    then show ?thesis by (simp add: observed_handles_def)
  next
    case exhausted
    then show ?thesis by simp
  next
    case (failed fuel' err)
    then show ?thesis by simp
  next
    case (step fuel' h1 tr')
    from step(2) step(4) have rec: "poll_loop fuel e (Suc n) h1 = (tr', Resolved h')" by simp
    from Suc.IH[OF rec] step(5) show ?thesis
      by (simp add: observed_handles_def List.map_filter_simps)
  qed
qed

lemma poll_loop_unsettled:
  "poll_loop fuel e n h = (tr, r) \<Longrightarrow> \<forall>h'. r \<noteq> Resolved h' \<Longrightarrow>
     \<not> op_done h \<and> (\<forall>h'\<in>set (observed_handles tr). \<not> op_done h')"
proof (induction fuel arbitrary: n h tr)
  case 0
  then show ?case by (auto simp: observed_handles_def split: if_splits)
next
  case (Suc fuel)
  from Suc.prems(1) show ?case
  proof (cases rule: poll_loop_cases)
    case finished
    with Suc.prems(2) show ?thesis by simp
  next
    case exhausted
    then show ?thesis by simp
  next
    case (failed fuel' err)
    then show ?thesis by (simp add: observed_handles_def List.map_filter_simps)
  next
    case (step fuel' h1 tr')
    from step(2) step(4) have rec: "poll_loop fuel e (Suc n) h1 = (tr', r)" by simp
    from Suc.IH[OF rec Suc.prems(2)] step(1,5) show ?thesis
      by (simp add: observed_handles_def List.map_filter_simps)
  qed
qed

lemma poll_loop_waits:
  "poll_loop fuel e n h = (tr, r) \<Longrightarrow> tr = xs @ EvWait ms # ys \<Longrightarrow>
     ms = 10000 \<and> xs \<noteq> [] \<and>
     last xs = EvProgress (LOADING_MESSAGES ! ((n + length (filter is_wait xs)) mod 10))"
proof (induction fuel arbitrary: n h tr xs)
  case 0
  then show ?case by (auto split: if_splits)
next
  case (Suc fuel)
  from Suc.prems(1) show ?case
  proof (cases rule: poll_loop_cases)
    case finished
    with Suc.prems show ?thesis by simp
  next
    case exhausted
    then show ?thesis by simp
  next
    case (failed fuel' err)
    with Suc.prems(2) show ?thesis
      by (auto simp: append_eq_Cons_conv Cons_eq_append_conv)
  next
    case (step fuel' h1 tr')
    from step(5) Suc.prems(2)
    consider (here) "xs = [EvProgress (LOADING_MESSAGES ! (n mod 10))]" "ms = 10000"
      | (later) xs' where "xs = EvProgress (LOADING_MESSAGES ! (n mod 10)) # EvWait 10000 # EvPoll h (Inr h1) # xs'"
          "tr' = xs' @ EvWait ms # ys"
      by (auto simp: append_eq_Cons_conv Cons_eq_append_conv)
    then show ?thesis
    proof cases
      case here
      then show ?thesis by simp
    next
      case later
      from step(2) step(4) have rec: "poll_loop fuel e (Suc n) h1 = (tr', r)" by simp
      from Suc.IH[OF rec later(2)] later(1) show ?thesis
        by simp
    qed
  qed
qed

text \<open>
The iteration budget only cuts runs short: a run that has settled settles in the same
way, with the same events, under any larger budget, and a run that is still pending has
used the whole budget on polls.
\<close>

lemma poll_loop_fuel_mono:
  "poll_loop fuel e n h = (tr, r) \<Longrightarrow> r \<noteq> Pending \<Longrightarrow> poll_loop (fuel + k) e n h = (tr, r)"
proof (induction fuel arbitrary: n h tr)
  case 0
  then show ?case by (cases k) (auto split: if_splits)
next
  case (Suc fuel)
  from Suc.prems(1) show ?case
  proof (cases rule: poll_loop_cases)
    case finished
    then show ?thesis by simp
  next
    case exhausted
    then show ?thesis by simp
  next
    case (failed fuel' err)
    then show ?thesis by (simp add: Let_def length_LOADING_MESSAGES)
  next
    case (step fuel' h1 tr')
    from step(2) step(4) have rec: "poll_loop fuel e (Suc n) h1 = (tr', r)" by simp
    from Suc.IH[OF rec Suc.prems(2)] step(1,3,5) show ?thesis
      by (simp add: Let_def length_LOADING_MESSAGES)
  qed
qed

lemma poll_loop_Pending_polls:
  "poll_loop fuel e n h = (tr, Pending) \<Longrightarrow> length (filter is_poll tr) = fuel"
proof (induction fuel arbitrary: n h tr)
  case 0
  then show ?case by (auto split: if_splits)
next
  case (Suc fuel)
  from Suc.prems(1) show ?case
  proof (cases rule: poll_loop_cases)
    case finished
    then show ?thesis by simp
  next
    case exhausted
    then show ?thesis by simp
  next
    case (failed fuel' err)
    then show ?thesis by simp
  next
    case (step fuel' h1 tr')
    from step(2) step(4) have rec: "poll_loop fuel e (Suc n) h1 = (tr', Pending)" by simp
    from Suc.IH[OF rec] step(5) show ?thesis by simp
  qed
qed

section \<open>The shape of a run\<close>

lemma fileToBase64_settles: "fileToBase64 e f \<noteq> Pending"
  by (simp add: fileToBase64_def split: reader_outcome.splits reader_result.splits)

lemma download_cases:
  assumes "download e h = (tr, r)"
  obtains (no_link) "\<not> truthy (downloadLink h)" "tr = []"
      "r = Rejected (JsError ''Video generation completed, but no download link was found.'')"
  | (fetch_failed) u err where "downloadLink h = Some u" "u \<noteq> []"
      "fetch e (u @ ''&key='' @ API_KEY e) = Inl err"
      "tr = [EvProgress ''Downloading your generated video...'',
             EvFetch (u @ ''&key='' @ API_KEY e) (Inl err)]"
      "r = Rejected err"
  | (not_ok) u resp where "downloadLink h = Some u" "u \<noteq> []"
      "fetch e (u @ ''&key='' @ API_KEY e) = Inr resp" "\<not> ok resp"
      "tr = [EvProgress ''Downloading your generated video...'',
             EvFetch (u @ ''&key='' @ API_KEY e) (Inr resp)]"
      "r = Rejected (JsError (''Failed to download video: '' @ statusText resp))"
  | (body_failed) u resp err where "downloadLink h = Some u" "u \<noteq> []"
      "fetch e (u @ ''&key='' @ API_KEY e) = Inr resp" "ok resp" "blob resp = Inl err"
      "tr = [EvProgress ''Downloading your generated video...'',
             EvFetch (u @ ''&key='' @ API_KEY e) (Inr resp)]"
      "r = Rejected err"
  | (downloaded) u resp bytes where "downloadLink h = Some u" "u \<noteq> []"
      "fetch e (u @ ''&key='' @ API_KEY e) = Inr resp" "ok resp" "blob resp = Inr bytes"
      "tr = [EvProgress ''Downloading your generated video...'',
             EvFetch (u @ ''&key='' @ API_KEY e) (Inr resp),
             EvObjectURL bytes (createObjectURL e bytes)]"
      "r = Resolved (createObjectURL e bytes)"
proof (cases "truthy (downloadLink h)")
  case False
  with assms no_link show ?thesis by (simp add: download_def Let_def)
next
  case True
  then obtain u where u: "downloadLink h = Some u" "u \<noteq> []"
    by (cases "downloadLink h") auto
  show ?thesis
  proof (cases "fetch e (u @ ''&key='' @ API_KEY e)")
    case (Inl err)
    with u assms fetch_failed show ?thesis by (simp add: download_def Let_def)
  next
    case (Inr resp)
    show ?thesis
    proof (cases "ok resp")
      case False
      with Inr u assms not_ok[of u resp] show ?thesis by (simp add: download_def Let_def)
    next
      case True
      show ?thesis
      proof (cases "blob resp")
        case (Inl err)
        with True Inr u assms body_failed[of u resp err] show ?thesis
          by (simp add: download_def Let_def)
      next
        case inr: (Inr bytes)
        with True Inr u assms downloaded[of u resp bytes] show ?thesis
          by (simp add: download_def Let_def)
      qed
    qed
  qed
qed

lemma generateVideo_cases:
  assumes "generateVideo fuel e p f ratio = (tr, r)"
  obtains (unreadable) err where "fileToBase64 e f = Rejected err"
      "tr = [EvRead f (readAsDataURL e f)]" "r = Rejected err"
  | (refused) b64 err where "fileToBase64 e f = Resolved b64"
      "generateVideos e (make_request p b64 f ratio) = Inl err"
      "tr = [EvRead f (readAsDataURL e f), EvProgress (LOADING_MESSAGES ! 0),
             EvSubmit (make_request p b64 f ratio) (Inl err)]"
      "r = Rejected err"
  | (waiting) b64 h0 tr1 where "fileToBase64 e f = Resolved b64"
      "generateVideos e (make_request p b64 f ratio) = Inr h0"
      "poll_loop fuel e 1 h0 = (tr1, Pending)"
      "tr = [EvRead f (readAsDataURL e f), EvProgress (LOADING_MESSAGES ! 0),
             EvSubmit (make_request p b64 f ratio) (Inr h0)] @ tr1"
      "r = Pending"
  | (poll_failed) b64 h0 tr1 err where "fileToBase64 e f = Resolved b64"
      "generateVideos e (make_request p b64 f ratio) = Inr h0"
      "poll_loop fuel e 1 h0 = (tr1, Rejected err)"
      "tr = [EvRead f (readAsDataURL e f), EvProgress (LOADING_MESSAGES ! 0),
             EvSubmit (make_request p b64 f ratio) (Inr h0)] @ tr1"
      "r = Rejected err"
  | (completed) b64 h0 tr1 h tr2 where "fileToBase64 e f = Resolved b64"
      "generateVideos e (make_request p b64 f ratio) = Inr h0"
      "poll_loop fuel e 1 h0 = (tr1, Resolved h)"
      "download e h = (tr2, r)"
      "tr = [EvRead f (readAsDataURL e f), EvProgress (LOADING_MESSAGES ! 0),
             EvSubmit (make_request p b64 f ratio) (Inr h0)] @ tr1 @ tr2"
proof (cases "fileToBase64 e f")
  case Pending
  then show ?thesis by (simp add: fileToBase64_settles)
next
  case (Rejected err)
  with assms unreadable show ?thesis by (simp add: generateVideo_def)
next
  case (Resolved b64)
  show ?thesis
  proof (cases "generateVideos e (make_request p b64 f ratio)")
    case (Inl err)
    with Resolved assms refused show ?thesis by (simp add: generateVideo_def Let_def)
  next
    case (Inr h0)
    obtain tr1 r1 where loop: "poll_loop fuel e 1 h0 = (tr1, r1)"
      by (cases "poll_loop fuel e 1 h0")
    show ?thesis
    proof (cases r1)
      case Pending
      with Resolved Inr loop assms waiting[of b64 h0 tr1] show ?thesis
        by (simp add: generateVideo_def Let_def)
    next
      case (Rejected err)
      with Resolved Inr loop assms poll_failed[of b64 h0 tr1 err] show ?thesis
        by (simp add: generateVideo_def Let_def)
    next
      case res: (Resolved h)
      obtain tr2 r2 where dl: "download e h = (tr2, r2)"
        by (cases "download e h")
      with res Resolved Inr loop assms completed[of b64 h0 tr1 h tr2] show ?thesis
        by (simp add: generateVideo_def Let_def)
    qed
  qed
qed

lemma generateVideo_fuel_mono:
  assumes "generateVideo fuel e p f ratio = (tr, r)" "r \<noteq> Pending"
  shows "generateVideo (fuel + k) e p f ratio = (tr, r)"
  using assms(1)
proof (cases rule: generateVideo_cases)
  case (unreadable err)
  then show ?thesis by (simp add: generateVideo_def)
next
  case (refused b64 err)
  then show ?thesis by (simp add: generateVideo_def Let_def)
next
  case (waiting b64 h0 tr1)
  with assms(2) show ?thesis by simp
next
  case (poll_failed b64 h0 tr1 err)
  from poll_loop_fuel_mono[OF poll_failed(3), of k] poll_failed show ?thesis
    by (simp add: generateVideo_def Let_def)
next
  case (completed b64 h0 tr1 h tr2)
  from poll_loop_fuel_mono[OF completed(3), of k] completed show ?thesis
    by (simp add: generateVideo_def Let_def)
qed

lemma split_after_prefix:
  "a @ b = xs @ ev # ys \<Longrightarrow> \<forall>x\<in>set a. \<not> P x \<Longrightarrow> P ev \<Longrightarrow>
     \<exists>xs1. xs = a @ xs1 \<and> b = xs1 @ ev # ys"
proof (induction a arbitrary: xs)
  case Nil
  then show ?case by simp
next
  case (Cons x a)
  then show ?case by (cases xs) auto
qed

lemma split_before_suffix:
  assumes "b @ c = xs @ ev # ys" "\<forall>x\<in>set c. \<not> P x" "P ev"
  shows "\<exists>ys1. ys = ys1 @ c \<and> b = xs @ ev # ys1"
proof -
  from assms(1) consider (left) us where "b = xs @ us" "us @ c = ev # ys"
    | (right) us where "b @ us = xs" "c = us @ ev # ys"
    by (auto simp: append_eq_append_conv2)
  then show ?thesis
  proof cases
    case left
    with assms(2,3) show ?thesis by (cases us) auto
  next
    case right
    with assms(2,3) show ?thesis by auto
  qed
qed

lemma filter_none:
  "\<forall>x\<in>set xs. \<not> P x \<Longrightarrow> filter P xs = []"
  by (induction xs) auto

lemma poll_loop_no_fetch:
  assumes "poll_loop fuel e n h = (tr, r)"
  shows "\<forall>ev\<in>set tr. \<not> is_fetch ev \<and> \<not> is_submit ev"
proof
  fix ev assume "ev \<in> set tr"
  with assms have "is_progress ev \<or> is_wait ev \<or> is_poll ev" by (rule poll_loop_events)
  then show "\<not> is_fetch ev \<and> \<not> is_submit ev" by (cases ev) auto
qed

lemma download_no_poll:
  assumes "download e h = (tr, r)"
  shows "\<forall>ev\<in>set tr. \<not> is_poll ev \<and> \<not> is_wait ev \<and> \<not> is_submit ev \<and> observed ev = None"
  using assms by (cases rule: download_cases) auto

lemma download_events:
  assumes "download e h = (tr, r)"
  shows "tr = [] \<or> hd tr = EvProgress ''Downloading your generated video...''"
  using assms by (cases rule: download_cases) auto

lemma observed_handles_mem:
  "h \<in> set (observed_handles tr) \<longleftrightarrow> (\<exists>ev\<in>set tr. observed ev = Some h)"
  by (force simp: observed_handles_def List.map_filter_def image_iff)

lemma observed_handles_append:
  "observed_handles (a @ b) = observed_handles a @ observed_handles b"
  by (simp add: observed_handles_def List.map_filter_def)

lemma observed_handles_none:
  "\<forall>ev\<in>set tr. observed ev = None \<Longrightarrow> observed_handles tr = []"
  by (induction tr) (auto simp: observed_handles_def)

lemma observed_handles_prefix:
  "observed_handles [EvRead f ro, EvProgress m, EvSubmit req (Inr h0)] = [h0]"
  by (simp add: observed_handles_def)

lemma poll_loop_Resolved_observed:
  assumes "poll_loop fuel e n h0 = (tr, Resolved h)"
  shows "op_done h \<and> ((tr = [] \<and> h = h0) \<or> (\<exists>ev\<in>set tr. observed ev = Some h))"
proof -
  from assms have d: "op_done h" and l: "last (h0 # observed_handles tr) = h"
    using poll_loop_Resolved by blast+
  show ?thesis
  proof (cases "tr = []")
    case True
    with l d show ?thesis by (simp add: observed_handles_def List.map_filter_simps)
  next
    case False
    with assms have "\<not> op_done h0" by (rule poll_loop_nonempty_undone)
    with d have "h \<noteq> h0" by auto
    with l have "observed_handles tr \<noteq> []" "last (observed_handles tr) = h"
      by (auto split: if_splits)
    then have "h \<in> set (observed_handles tr)" using last_in_set by blast
    with d show ?thesis by (simp add: observed_handles_mem)
  qed
qed

text \<open>
A run whose last observed handle is done has left the loop with that handle.
\<close>

lemma completed_run:
  assumes run: "generateVideo fuel e p f ratio = (tr, r)"
    and obs: "observed_handles tr \<noteq> []"
    and fin: "op_done (last (observed_handles tr))"
  obtains b64 h0 tr1 tr2 where
    "poll_loop fuel e 1 h0 = (tr1, Resolved (last (observed_handles tr)))"
    "download e (last (observed_handles tr)) = (tr2, r)"
    "tr = [EvRead f (readAsDataURL e f), EvProgress (LOADING_MESSAGES ! 0),
           EvSubmit (make_request p b64 f ratio) (Inr h0)] @ tr1 @ tr2"
  using run
proof (cases rule: generateVideo_cases)
  case (unreadable err)
  with obs show ?thesis by (simp add: observed_handles_def)
next
  case (refused b64 err)
  with obs show ?thesis by (simp add: observed_handles_def)
next
  case (waiting b64 h0 tr1)
  from poll_loop_unsettled[OF waiting(3)]
  have "\<not> op_done h0" "\<forall>h'\<in>set (observed_handles tr1). \<not> op_done h'" by auto
  moreover from waiting(4) have "observed_handles tr = h0 # observed_handles tr1"
    by (simp add: observed_handles_def)
  ultimately have "\<forall>h'\<in>set (observed_handles tr). \<not> op_done h'" by simp
  with obs fin show ?thesis using last_in_set by blast
next
  case (poll_failed b64 h0 tr1 err)
  from poll_loop_unsettled[OF poll_failed(3)]
  have "\<not> op_done h0" "\<forall>h'\<in>set (observed_handles tr1). \<not> op_done h'" by auto
  moreover from poll_failed(4) have "observed_handles tr = h0 # observed_handles tr1"
    by (simp add: observed_handles_def)
  ultimately have "\<forall>h'\<in>set (observed_handles tr). \<not> op_done h'" by simp
  with obs fin show ?thesis using last_in_set by blast
next
  case (completed b64 h0 tr1 h tr2)
  from download_no_poll[OF completed(4)] have "observed_handles tr2 = []"
    by (simp add: observed_handles_none)
  with completed(5) have "observed_handles tr = h0 # observed_handles tr1"
    using observed_handles_append[of "[EvRead f (readAsDataURL e f), EvProgress (LOADING_MESSAGES ! 0),
           EvSubmit (make_request p b64 f ratio) (Inr h0)]" "tr1 @ tr2"]
      observed_handles_append[of tr1 tr2]
    by (simp add: observed_handles_prefix)
  with poll_loop_Resolved[OF completed(3)] have "last (observed_handles tr) = h" by simp
  with completed that show ?thesis by blast
qed

text \<open>
Every run is the reading of the file, then at most the first message and the
  submission, then the loop's events, then the download's.
\<close>

lemma run_shape:
  assumes run: "generateVideo fuel e p f ratio = (tr, r)"
  obtains (unreadable) "tr = [EvRead f (readAsDataURL e f)]"
  | (submitted) req rep h0 tr1 r1 tr2 where
      "tr = [EvRead f (readAsDataURL e f), EvProgress (LOADING_MESSAGES ! 0), EvSubmit req rep] @ tr1 @ tr2"
      "rep = Inr h0 \<longrightarrow> poll_loop fuel e 1 h0 = (tr1, r1)"
      "rep \<noteq> Inr h0 \<longrightarrow> tr1 = []"
      "\<forall>ev\<in>set tr1. is_progress ev \<or> is_wait ev \<or> is_poll ev"
      "\<forall>ev\<in>set tr2. \<not> is_poll ev \<and> \<not> is_wait ev \<and> \<not> is_submit ev"
      "tr2 = [] \<or> hd tr2 = EvProgress ''Downloading your generated video...''"
  using run
proof (cases rule: generateVideo_cases)
  case (unreadable err)
  then show ?thesis using that(1) by simp
next
  case (refused b64 err)
  then show ?thesis
    using that(2)[of "make_request p b64 f ratio" "Inl err" "[]" "[]" undefined undefined] by simp
next
  case (waiting b64 h0 tr1)
  then show ?thesis
    using that(2)[of "make_request p b64 f ratio" "Inr h0" tr1 "[]" h0 Pending]
      poll_loop_events[OF waiting(3)] by simp
next
  case (poll_failed b64 h0 tr1 err)
  then show ?thesis
    using that(2)[of "make_request p b64 f ratio" "Inr h0" tr1 "[]" h0 "Rejected err"]
      poll_loop_events[OF poll_failed(3)] by simp
next
  case (completed b64 h0 tr1 h tr2)
  then show ?thesis
    using that(2)[of "make_request p b64 f ratio" "Inr h0" tr1 tr2 h0 "Resolved h"]
      poll_loop_events[OF completed(3)] download_no_poll[OF completed(4)]
      download_events[OF completed(4)] by simp
qed

lemma downloadLink_first:
  "response h = Some resp \<Longrightarrow> generatedVideos resp = Some (gv # rest) \<Longrightarrow>
     downloadLink h = (case video gv of None \<Rightarrow> None | Some v \<Rightarrow> uri v)"
  by (simp add: downloadLink_def js_index_def)

section \<open>Strings\<close>

lemma split_no_sep: "sep \<notin> set s \<Longrightarrow> split sep s = [s]"
  by (induction s) auto





lemma fileToBase64_no_comma:
  assumes "readAsDataURL e f = OnLoad (ResultString s)" "CHR '','' \<notin> set s"
  shows "fileToBase64 e f = Resolved None"
  using assms by (simp add: fileToBase64_def split_no_sep js_index_def)

lemma starts_with_iff: "starts_with s sub \<longleftrightarrow> (\<exists>post. s = sub @ post)"
  by (induction s sub rule: starts_with.induct) auto

lemma str_includes_iff: "str_includes s sub \<longleftrightarrow> (\<exists>pre post. s = pre @ sub @ post)"
proof (induction s)
  case Nil
  then show ?case by auto
next
  case (Cons c cs)
  show ?case
  proof
    assume "str_includes (c # cs) sub"
    then consider "starts_with (c # cs) sub" | "str_includes cs sub" by auto
    then show "\<exists>pre post. c # cs = pre @ sub @ post"
    proof cases
      case 1
      then obtain post where "c # cs = sub @ post" by (auto simp: starts_with_iff)
      then have "c # cs = [] @ sub @ post" by simp
      then show ?thesis by blast
    next
      case 2
      with Cons.IH obtain pre post where "cs = pre @ sub @ post" by blast
      then have "c # cs = (c # pre) @ sub @ post" by simp
      then show ?thesis by blast
    qed
  next
    assume "\<exists>pre post. c # cs = pre @ sub @ post"
    then obtain pre post where eq: "c # cs = pre @ sub @ post" by blast
    show "str_includes (c # cs) sub"
    proof (cases pre)
      case Nil
      with eq have "starts_with (c # cs) sub" by (auto simp: starts_with_iff)
      then show ?thesis by simp
    next
      case (Cons a pre')
      with eq have "cs = pre' @ sub @ post" by simp
      with Cons.IH have "str_includes cs sub" by blast
      then show ?thesis by simp
    qed
  qed
qed

lemma errorMessage_of_matches:
  "str_includes (errorMessage_of err) ''Requested entity was not found'' \<longleftrightarrow>
   (\<exists>m. message err = Some m \<and> str_includes m ''Requested entity was not found'')"
  by (cases err) (auto simp: errorMessage_of_def)

lemma errorMessage_of_nonempty: "errorMessage_of err \<noteq> []"
  by (cases err) (auto simp: errorMessage_of_def)

section \<open>The submit handler\<close>

lemma forward_progress_fields:
  "apiKeySelected (forward_progress tr s) = apiKeySelected s"
  "prompt (forward_progress tr s) = prompt s"
  "imageFile (forward_progress tr s) = imageFile s"
  "previewUrl (forward_progress tr s) = previewUrl s"
  "aspectRatio (forward_progress tr s) = aspectRatio s"
  "isLoading (forward_progress tr s) = isLoading s"
  "generatedVideoUrl (forward_progress tr s) = generatedVideoUrl s"
  "error (forward_progress tr s) = error s"
proof -
  have "apiKeySelected (forward_progress tr s) = apiKeySelected s \<and>
    prompt (forward_progress tr s) = prompt s \<and>
    imageFile (forward_progress tr s) = imageFile s \<and>
    previewUrl (forward_progress tr s) = previewUrl s \<and>
    aspectRatio (forward_progress tr s) = aspectRatio s \<and>
    isLoading (forward_progress tr s) = isLoading s \<and>
    generatedVideoUrl (forward_progress tr s) = generatedVideoUrl s \<and>
    error (forward_progress tr s) = error s"
  proof (induction tr arbitrary: s)
    case Nil
    then show ?case by (simp add: forward_progress_def)
  next
    case (Cons ev tr)
    have "forward_progress (ev # tr) s = forward_progress tr (setLoadingMessage_of ev s)"
      by (simp add: forward_progress_def)
    with Cons[of "setLoadingMessage_of ev s"] show ?case by (cases ev) simp_all
  qed
  then show
    "apiKeySelected (forward_progress tr s) = apiKeySelected s"
    "prompt (forward_progress tr s) = prompt s"
    "imageFile (forward_progress tr s) = imageFile s"
    "previewUrl (forward_progress tr s) = previewUrl s"
    "aspectRatio (forward_progress tr s) = aspectRatio s"
    "isLoading (forward_progress tr s) = isLoading s"
    "generatedVideoUrl (forward_progress tr s) = generatedVideoUrl s"
    "error (forward_progress tr s) = error s"
    by simp_all
qed

lemma handleGenerateVideo_Rejected:
  assumes "imageFile s = Some f" "apiKeySelected s"
    "generateVideo fuel e (prompt s) f (aspectRatio s) = (tr, Rejected err)"
  shows "handleGenerateVideo fuel e s =
    (tr @ [EvConsoleError err],
     finally_block (catch_block err
       (forward_progress tr (s\<lparr>isLoading := True, error := None, generatedVideoUrl := None\<rparr>))),
     Resolved ())"
  using assms by (simp add: handleGenerateVideo_def)

lemma handleGenerateVideo_Resolved:
  assumes "imageFile s = Some f" "apiKeySelected s"
    "generateVideo fuel e (prompt s) f (aspectRatio s) = (tr, Resolved url)"
  shows "handleGenerateVideo fuel e s =
    (tr,
     finally_block ((forward_progress tr
        (s\<lparr>isLoading := True, error := None, generatedVideoUrl := None\<rparr>))\<lparr>generatedVideoUrl := Some url\<rparr>),
     Resolved ())"
  using assms by (simp add: handleGenerateVideo_def)

lemma handleGenerateVideo_Pending:
  assumes "imageFile s = Some f" "apiKeySelected s"
    "generateVideo fuel e (prompt s) f (aspectRatio s) = (tr, Pending)"
  shows "handleGenerateVideo fuel e s =
    (tr, forward_progress tr (s\<lparr>isLoading := True, error := None, generatedVideoUrl := None\<rparr>),
     Pending)"
  using assms by (simp add: handleGenerateVideo_def)

lemma loading_while_pending:
  assumes "imageFile s = Some f" "apiKeySelected s"
    "generateVideo fuel e (prompt s) f (aspectRatio s) = (tr, Pending)"
  shows "snd (snd (handleGenerateVideo fuel e s)) = Pending \<and>
         isLoading (fst (snd (handleGenerateVideo fuel e s)))"
  using handleGenerateVideo_Pending[OF assms] by (simp add: forward_progress_fields)

section \<open>The scenarios, run\<close>

lemma happy_run:
  "generateVideo 5 happy_env ''a cat running'' photo Ratio_16_9 = (happy_trace, Resolved ''blob:video-1'')"
  by code_simp

lemma no_result_run:
  "generateVideo 5 no_result_env ''a cat running'' photo Ratio_16_9 =
     (no_result_trace, Rejected (JsError ''Video generation completed, but no download link was found.''))"
  by code_simp

lemma forbidden_run:
  "generateVideo 5 forbidden_env ''a cat running'' photo Ratio_16_9 =
     (forbidden_trace, Rejected (JsError ''Failed to download video: Forbidden''))"
  by code_simp

lemma revoked_run:
  "generateVideo 5 revoked_env ''a cat running'' photo Ratio_16_9 =
     (refused_trace ''Requested entity was not found.'', Rejected (JsError ''Requested entity was not found.''))"
  by code_simp

lemma quota_run:
  "generateVideo 5 quota_env ''a cat running'' photo Ratio_16_9 =
     (refused_trace ''Quota exceeded.'', Rejected (JsError ''Quota exceeded.''))"
  by code_simp

lemma failed_state_reached:
  "fst (snd (handleGenerateVideo 5 no_result_env form_state)) = failed_state"
  by code_simp

lemma ready_state_reached:
  "fst (snd (handleGenerateVideo 5 happy_env form_state)) = ready_state"
  by code_simp

lemma happy_observed:
  "observed_handles happy_trace = [running_handle, running_handle, running_handle, finished_handle]"
  by (simp add: happy_trace_def observed_handles_def)

lemma no_result_observed:
  "observed_handles no_result_trace = [running_handle, empty_handle]"
  by (simp add: no_result_trace_def observed_handles_def)

lemma forbidden_observed:
  "observed_handles forbidden_trace = [running_handle, running_handle, running_handle, finished_handle]"
  by (simp add: forbidden_trace_def happy_trace_def observed_handles_def)

lemma finished_link: "downloadLink finished_handle = Some ''https://videos.example/1?alt=media''"
  by (simp add: downloadLink_def finished_handle_def js_index_def)

lemma empty_link: "downloadLink empty_handle = None"
  by (simp add: downloadLink_def empty_handle_def js_index_def)

lemma form_state_submittable:
  "imageFile form_state = Some photo" "apiKeySelected form_state"
  "prompt form_state = ''a cat running''" "aspectRatio form_state = Ratio_16_9"
  by (simp_all add: form_state_def)

section \<open>The claims\<close>

text \<open>
\<^bold>\<open>Claim C1.\<close> In every run of \<open>generateVideo\<close>, however far it has got, a poll is
performed only on a handle whose done flag is false and only while no handle handed
back by the submission or by an earlier poll was done, so a done handle is never polled
again; and a fetch of the result location is performed only after a done handle has been
observed.
\<close>

theorem polls_only_while_not_done:
  assumes run: "generateVideo fuel e p f ratio = (tr, r)"
  shows "(\<forall>xs h rep ys. tr = xs @ EvPoll h rep # ys \<longrightarrow>
            \<not> op_done h \<and> (\<forall>ev\<in>set xs. \<not> observed_done ev)) \<and>
         (\<forall>xs url rep ys. tr = xs @ EvFetch url rep # ys \<longrightarrow>
            (\<exists>ev\<in>set xs. observed_done ev))"
proof -
  have loop_part: "\<not> op_done h \<and> (\<forall>ev\<in>set xs. \<not> observed_done ev)"
    if loop: "poll_loop fuel e 1 h0 = (tr1, r1)"
      and tail: "\<forall>ev\<in>set tr2. \<not> is_poll ev"
      and eq: "[EvRead f ro, EvProgress m, EvSubmit req (Inr h0)] @ tr1 @ tr2 = xs @ EvPoll h rep # ys"
    for h0 tr1 r1 tr2 ro m req xs h rep ys
  proof -
    have "\<forall>x\<in>set [EvRead f ro, EvProgress m, EvSubmit req (Inr h0)]. \<not> is_poll x" by simp
    from split_after_prefix[OF eq this] obtain xs1
      where xs: "xs = [EvRead f ro, EvProgress m, EvSubmit req (Inr h0)] @ xs1"
        and rest: "tr1 @ tr2 = xs1 @ EvPoll h rep # ys" by auto
    from split_before_suffix[OF rest tail] obtain ys1
      where tr1: "tr1 = xs1 @ EvPoll h rep # ys1" by auto
    from poll_loop_polls[OF loop tr1]
    have a: "\<not> op_done h" and b: "\<forall>ev\<in>set xs1. \<not> observed_done ev" by auto
    from tr1 have "tr1 \<noteq> []" by simp
    with loop have "\<not> op_done h0" by (rule poll_loop_nonempty_undone)
    with a b xs show ?thesis by (simp add: observed_done_def)
  qed
  have fetch_part: "\<exists>ev\<in>set xs. observed_done ev"
    if loop: "poll_loop fuel e 1 h0 = (tr1, Resolved h)"
      and eq: "[EvRead f ro, EvProgress m, EvSubmit req (Inr h0)] @ tr1 @ tr2 = xs @ EvFetch url rep # ys"
    for h0 tr1 h tr2 ro m req xs url rep ys
  proof -
    have "\<forall>x\<in>set ([EvRead f ro, EvProgress m, EvSubmit req (Inr h0)] @ tr1). \<not> is_fetch x"
      using poll_loop_no_fetch[OF loop] by simp
    with eq have "\<exists>xs1. xs = ([EvRead f ro, EvProgress m, EvSubmit req (Inr h0)] @ tr1) @ xs1"
      using split_after_prefix[of "[EvRead f ro, EvProgress m, EvSubmit req (Inr h0)] @ tr1" tr2 xs
          "EvFetch url rep" ys is_fetch] by auto
    then obtain xs1 where xs: "xs = [EvRead f ro, EvProgress m, EvSubmit req (Inr h0)] @ tr1 @ xs1"
      by auto
    from poll_loop_Resolved_observed[OF loop]
    have d: "op_done h" and w: "(tr1 = [] \<and> h = h0) \<or> (\<exists>ev\<in>set tr1. observed ev = Some h)"
      by blast+
    from w show ?thesis
    proof
      assume "tr1 = [] \<and> h = h0"
      with d have "observed_done (EvSubmit req (Inr h0))" by (simp add: observed_done_def)
      with xs show ?thesis by auto
    next
      assume "\<exists>ev\<in>set tr1. observed ev = Some h"
      then obtain ev where "ev \<in> set tr1" "observed ev = Some h" by blast
      with d have "ev \<in> set xs" "observed_done ev" using xs by (simp_all add: observed_done_def)
      then show ?thesis by blast
    qed
  qed
  from run show ?thesis
  proof (cases rule: generateVideo_cases)
    case (unreadable err)
    then show ?thesis by (auto simp: Cons_eq_append_conv)
  next
    case (refused b64 err)
    then show ?thesis by (auto simp: Cons_eq_append_conv)
  next
    case (waiting b64 h0 tr1)
    have "\<not> op_done h \<and> (\<forall>ev\<in>set xs. \<not> observed_done ev)"
      if "tr = xs @ EvPoll h rep # ys" for xs h rep ys
    proof -
      from that waiting(4)
      have "[EvRead f (readAsDataURL e f), EvProgress (LOADING_MESSAGES ! 0),
             EvSubmit (make_request p b64 f ratio) (Inr h0)] @ tr1 @ [] = xs @ EvPoll h rep # ys"
        by simp
      from loop_part[OF waiting(3) _ this] show ?thesis by simp
    qed
    moreover have "\<exists>ev\<in>set xs. observed_done ev"
      if "tr = xs @ EvFetch url rep # ys" for xs url rep ys
    proof -
      have "\<forall>x\<in>set tr. \<not> is_fetch x"
        using poll_loop_no_fetch[OF waiting(3)] waiting(4) by simp
      with that show ?thesis by simp
    qed
    ultimately show ?thesis by blast
  next
    case (poll_failed b64 h0 tr1 err)
    have "\<not> op_done h \<and> (\<forall>ev\<in>set xs. \<not> observed_done ev)"
      if "tr = xs @ EvPoll h rep # ys" for xs h rep ys
    proof -
      from that poll_failed(4)
      have "[EvRead f (readAsDataURL e f), EvProgress (LOADING_MESSAGES ! 0),
             EvSubmit (make_request p b64 f ratio) (Inr h0)] @ tr1 @ [] = xs @ EvPoll h rep # ys"
        by simp
      from loop_part[OF poll_failed(3) _ this] show ?thesis by simp
    qed
    moreover have "\<exists>ev\<in>set xs. observed_done ev"
      if "tr = xs @ EvFetch url rep # ys" for xs url rep ys
    proof -
      have "\<forall>x\<in>set tr. \<not> is_fetch x"
        using poll_loop_no_fetch[OF poll_failed(3)] poll_failed(4) by simp
      with that show ?thesis by simp
    qed
    ultimately show ?thesis by blast
  next
    case (completed b64 h0 tr1 h' tr2)
    have "\<forall>ev\<in>set tr2. \<not> is_poll ev" using download_no_poll[OF completed(4)] by simp
    have "\<not> op_done h \<and> (\<forall>ev\<in>set xs. \<not> observed_done ev)"
      if "tr = xs @ EvPoll h rep # ys" for xs h rep ys
    proof -
      from that completed(5)
      have "[EvRead f (readAsDataURL e f), EvProgress (LOADING_MESSAGES ! 0),
             EvSubmit (make_request p b64 f ratio) (Inr h0)] @ tr1 @ tr2 = xs @ EvPoll h rep # ys"
        by simp
      from loop_part[OF completed(3) \<open>\<forall>ev\<in>set tr2. \<not> is_poll ev\<close> this] show ?thesis .
    qed
    moreover have "\<exists>ev\<in>set xs. observed_done ev"
      if "tr = xs @ EvFetch url rep # ys" for xs url rep ys
    proof -
      from that completed(5)
      have "[EvRead f (readAsDataURL e f), EvProgress (LOADING_MESSAGES ! 0),
             EvSubmit (make_request p b64 f ratio) (Inr h0)] @ tr1 @ tr2 = xs @ EvFetch url rep # ys"
        by simp
      from fetch_part[OF completed(3) this] show ?thesis .
    qed
    ultimately show ?thesis by blast
  qed
qed

text \<open>
The run of two running polls and a finished third: the third poll is made on a
  running handle, nothing observed before it was done, and the fetch follows the finished
  handle.
\<close>

theorem polls_only_while_not_done_witness:
  "generateVideo 5 happy_env ''a cat running'' photo Ratio_16_9 = (happy_trace, Resolved ''blob:video-1'') \<and>
   happy_trace ! 11 = EvPoll running_handle (Inr finished_handle) \<and>
   \<not> op_done running_handle \<and>
   \<not> observed_done (happy_trace ! 8) \<and>
   (\<exists>ev\<in>set (take 13 happy_trace). observed_done ev)"
proof -
  have p: "happy_trace =
      take 11 happy_trace @ EvPoll running_handle (Inr finished_handle) # drop 12 happy_trace"
    by (simp add: happy_trace_def)
  have q: "happy_trace =
      take 13 happy_trace @
      EvFetch ''https://videos.example/1?alt=media&key=KEY'' (Inr ok_response) # drop 14 happy_trace"
    by (simp add: happy_trace_def)
  have m: "happy_trace ! 8 \<in> set (take 11 happy_trace)" "happy_trace ! 11 = EvPoll running_handle (Inr finished_handle)"
    by (simp_all add: happy_trace_def)
  from polls_only_while_not_done[OF happy_run] p
  have "\<not> op_done running_handle \<and> (\<forall>ev\<in>set (take 11 happy_trace). \<not> observed_done ev)"
    by blast
  moreover from polls_only_while_not_done[OF happy_run] q
  have "\<exists>ev\<in>set (take 13 happy_trace). observed_done ev" by blast
  ultimately show ?thesis using happy_run m by blast
qed

text \<open>
\<^bold>\<open>Claim C2.\<close> The message list has 10 entries. In every run, the event just before the
\<open>n\<close>-th wait (counted from 1, which is the value of \<open>pollCount\<close> there) is the progress
message at index \<open>n mod 10\<close>; and before any poll the first progress message of the run
has been emitted, and it is the one at index 0.
\<close>

theorem progress_message_rotation:
  assumes run: "generateVideo fuel e p f ratio = (tr, r)"
  shows "length LOADING_MESSAGES = 10 \<and>
         (\<forall>xs ms ys. tr = xs @ EvWait ms # ys \<longrightarrow>
            xs \<noteq> [] \<and>
            last xs = EvProgress (LOADING_MESSAGES ! (Suc (length (filter is_wait xs)) mod 10))) \<and>
         (\<forall>xs h rep ys. tr = xs @ EvPoll h rep # ys \<longrightarrow>
            filter is_progress xs \<noteq> [] \<and>
            hd (filter is_progress xs) = EvProgress (LOADING_MESSAGES ! 0))"
  using run
proof (cases rule: run_shape)
  case unreadable
  then show ?thesis by (auto simp: length_LOADING_MESSAGES Cons_eq_append_conv)
next
  case (submitted req rep h0 tr1 r1 tr2)
  let ?pre = "[EvRead f (readAsDataURL e f), EvProgress (LOADING_MESSAGES ! 0), EvSubmit req rep]"
  have w: "xs \<noteq> [] \<and>
      last xs = EvProgress (LOADING_MESSAGES ! (Suc (length (filter is_wait xs)) mod 10))"
    if eq: "tr = xs @ EvWait ms # ys" for xs ms ys
  proof -
    from eq submitted(1) have eq': "?pre @ tr1 @ tr2 = xs @ EvWait ms # ys" by simp
    have "\<forall>x\<in>set ?pre. \<not> is_wait x" by simp
    from split_after_prefix[OF eq' this] obtain xs1
      where xs: "xs = ?pre @ xs1" and rest: "tr1 @ tr2 = xs1 @ EvWait ms # ys" by auto
    from submitted(5) have "\<forall>x\<in>set tr2. \<not> is_wait x" by simp
    from split_before_suffix[OF rest this] obtain ys1
      where tr1: "tr1 = xs1 @ EvWait ms # ys1" by auto
    then have "tr1 \<noteq> []" by simp
    with submitted(2,3) have loop: "poll_loop fuel e 1 h0 = (tr1, r1)" by blast
    from poll_loop_waits[OF loop tr1] xs show ?thesis by simp
  qed
  have q: "filter is_progress xs \<noteq> [] \<and>
      hd (filter is_progress xs) = EvProgress (LOADING_MESSAGES ! 0)"
    if eq: "tr = xs @ EvPoll h rep' # ys" for xs h rep' ys
  proof -
    from eq submitted(1) have eq': "?pre @ tr1 @ tr2 = xs @ EvPoll h rep' # ys" by simp
    have "\<forall>x\<in>set ?pre. \<not> is_poll x" by simp
    from split_after_prefix[OF eq' this] obtain xs1
      where xs: "xs = ?pre @ xs1" by auto
    then show ?thesis by simp
  qed
  from w q show ?thesis by (simp add: length_LOADING_MESSAGES)
qed

text \<open>
In the run of three polls, the second wait follows the message at index 2, and the
  first message before the first poll is the one at index 0.
\<close>

theorem progress_message_rotation_witness:
  "generateVideo 5 happy_env ''a cat running'' photo Ratio_16_9 = (happy_trace, Resolved ''blob:video-1'') \<and>
   happy_trace ! 7 = EvWait 10000 \<and>
   last (take 7 happy_trace) = EvProgress (LOADING_MESSAGES ! 2) \<and>
   happy_trace ! 5 = EvPoll running_handle (Inr running_handle) \<and>
   hd (filter is_progress (take 5 happy_trace)) = EvProgress (LOADING_MESSAGES ! 0)"
proof -
  have w: "happy_trace = take 7 happy_trace @ EvWait 10000 # drop 8 happy_trace"
    by (simp add: happy_trace_def)
  have p: "happy_trace =
      take 5 happy_trace @ EvPoll running_handle (Inr running_handle) # drop 6 happy_trace"
    by (simp add: happy_trace_def)
  have c: "Suc (length (filter is_wait (take 7 happy_trace))) mod 10 = 2"
    by (simp add: happy_trace_def)
  have m: "happy_trace ! 7 = EvWait 10000" "happy_trace ! 5 = EvPoll running_handle (Inr running_handle)"
    by (simp_all add: happy_trace_def)
  from progress_message_rotation[OF happy_run] w
  have "last (take 7 happy_trace) =
      EvProgress (LOADING_MESSAGES ! (Suc (length (filter is_wait (take 7 happy_trace))) mod 10))"
    by blast
  with c have "last (take 7 happy_trace) = EvProgress (LOADING_MESSAGES ! 2)" by simp
  moreover from progress_message_rotation[OF happy_run] p
  have "hd (filter is_progress (take 5 happy_trace)) = EvProgress (LOADING_MESSAGES ! 0)"
    by blast
  ultimately show ?thesis using happy_run m by blast
qed

text \<open>
\<^bold>\<open>Claim C3.\<close> Take a run whose last observed handle is done (the loop has been left).
If the optional chain finds no usable link in it (no response, no list, an empty list, a
first descriptor without video or URI, or an empty URI), the run is rejected with the
no-download-link error and no fetch is performed. If the first descriptor carries a
non-empty URI, the run performs exactly one fetch, of that URI with the key appended;
later descriptors play no part.
\<close>

theorem no_result_without_link:
  assumes run: "generateVideo fuel e p f ratio = (tr, r)"
    and obs: "observed_handles tr \<noteq> []"
    and fin: "op_done (last (observed_handles tr))"
  shows "(\<not> truthy (downloadLink (last (observed_handles tr))) \<longrightarrow>
            r = Rejected (JsError ''Video generation completed, but no download link was found.'') \<and>
            (\<forall>ev\<in>set tr. \<not> is_fetch ev)) \<and>
         (\<forall>resp gv rest v u.
            response (last (observed_handles tr)) = Some resp \<and>
            generatedVideos resp = Some (gv # rest) \<and> video gv = Some v \<and> uri v = Some u \<and> u \<noteq> [] \<longrightarrow>
            (\<exists>rep. filter is_fetch tr = [EvFetch (u @ ''&key='' @ API_KEY e) rep]))"
  using run obs fin
proof (cases rule: completed_run)
  case (1 b64 h0 tr1 tr2)
  let ?h = "last (observed_handles tr)"
  have pre: "filter is_fetch ([EvRead f (readAsDataURL e f), EvProgress (LOADING_MESSAGES ! 0),
           EvSubmit (make_request p b64 f ratio) (Inr h0)] @ tr1) = []"
    using poll_loop_no_fetch[OF 1(1)] by (simp add: filter_none)
  then have ff: "filter is_fetch tr = filter is_fetch tr2" using 1(3) by simp
  have a: "r = Rejected (JsError ''Video generation completed, but no download link was found.'') \<and>
            (\<forall>ev\<in>set tr. \<not> is_fetch ev)" if "\<not> truthy (downloadLink ?h)"
  proof -
    from 1(2) that have "tr2 = []" and rr: "r = Rejected (JsError ''Video generation completed, but no download link was found.'')"
      by (cases rule: download_cases; simp)+
    with ff have "filter is_fetch tr = []" by simp
    then have "\<forall>ev\<in>set tr. \<not> is_fetch ev" by (simp add: filter_empty_conv)
    with rr show ?thesis by simp
  qed
  have b: "\<exists>rep. filter is_fetch tr = [EvFetch (u @ ''&key='' @ API_KEY e) rep]"
    if "response ?h = Some resp" "generatedVideos resp = Some (gv # rest)" "video gv = Some v"
      "uri v = Some u" "u \<noteq> []" for resp gv rest v u
  proof -
    from that have "downloadLink ?h = Some u" by (simp add: downloadLink_first)
    with 1(2) that(5) have "\<exists>rep. filter is_fetch tr2 = [EvFetch (u @ ''&key='' @ API_KEY e) rep]"
      by (cases rule: download_cases) auto
    with ff show ?thesis by simp
  qed
  from a b show ?thesis by blast
qed

text \<open>
A finished handle with an empty result list, and one with a link.
\<close>

theorem no_result_without_link_witness:
  "observed_handles no_result_trace \<noteq> [] \<and>
   op_done (last (observed_handles no_result_trace)) \<and>
   \<not> truthy (downloadLink (last (observed_handles no_result_trace))) \<and>
   generateVideo 5 no_result_env ''a cat running'' photo Ratio_16_9 =
     (no_result_trace, Rejected (JsError ''Video generation completed, but no download link was found.'')) \<and>
   filter is_fetch no_result_trace = [] \<and>
   observed_handles happy_trace \<noteq> [] \<and>
   op_done (last (observed_handles happy_trace)) \<and>
   (\<exists>rep. filter is_fetch happy_trace = [EvFetch ''https://videos.example/1?alt=media&key=KEY'' rep])"
proof -
  have a: "observed_handles no_result_trace \<noteq> []" "op_done (last (observed_handles no_result_trace))"
    "\<not> truthy (downloadLink (last (observed_handles no_result_trace)))"
    by (simp_all add: no_result_observed empty_link) (simp add: empty_handle_def)
  from no_result_without_link[OF no_result_run a(1,2)] a(3)
  have "\<forall>ev\<in>set no_result_trace. \<not> is_fetch ev" by blast
  then have b: "filter is_fetch no_result_trace = []" by (simp add: filter_empty_conv)
  have c: "observed_handles happy_trace \<noteq> []" "op_done (last (observed_handles happy_trace))"
    by (simp_all add: happy_observed) (simp add: finished_handle_def)
  have d: "response (last (observed_handles happy_trace)) =
      Some \<lparr>generatedVideos = Some [\<lparr>video = Some \<lparr>uri = Some ''https://videos.example/1?alt=media''\<rparr>\<rparr>]\<rparr>"
    by (simp add: happy_observed finished_handle_def)
  from no_result_without_link[OF happy_run c]
  have "\<forall>resp gv rest v u.
            response (last (observed_handles happy_trace)) = Some resp \<and>
            generatedVideos resp = Some (gv # rest) \<and> video gv = Some v \<and> uri v = Some u \<and> u \<noteq> [] \<longrightarrow>
            (\<exists>rep. filter is_fetch happy_trace = [EvFetch (u @ ''&key='' @ API_KEY happy_env) rep])"
    by blast
  from this[rule_format, of "\<lparr>generatedVideos = Some [\<lparr>video = Some \<lparr>uri = Some ''https://videos.example/1?alt=media''\<rparr>\<rparr>]\<rparr>"
      "\<lparr>video = Some \<lparr>uri = Some ''https://videos.example/1?alt=media''\<rparr>\<rparr>" "[]"
      "\<lparr>uri = Some ''https://videos.example/1?alt=media''\<rparr>" "''https://videos.example/1?alt=media''"] d
  have "\<exists>rep. filter is_fetch happy_trace =
      [EvFetch (''https://videos.example/1?alt=media'' @ ''&key='' @ API_KEY happy_env) rep]"
    by simp
  then have e: "\<exists>rep. filter is_fetch happy_trace = [EvFetch ''https://videos.example/1?alt=media&key=KEY'' rep]"
    by (simp add: happy_env_def)
  from a b c e no_result_run show ?thesis by blast
qed

text \<open>
\<^bold>\<open>Claim C4.\<close> Let an attempt that passed the preconditions be rejected with \<open>err\<close>. If
the message of \<open>err\<close> contains \<open>Requested entity was not found\<close>, the handler leaves
\<open>apiKeySelected\<close> false, so that the key selector is rendered, and sets the error to the
message asking for a new key. Otherwise \<open>apiKeySelected\<close> is what it was and the error is
the message of \<open>err\<close> (or the stand-in for a missing or empty message), which the banner
shows.
\<close>

theorem credential_failure_closes_gate:
  assumes img: "imageFile s = Some f" and key: "apiKeySelected s"
    and run: "generateVideo fuel e (prompt s) f (aspectRatio s) = (tr, Rejected err)"
    and after: "handleGenerateVideo fuel e s = (tr', s', fin)"
  shows "((\<exists>m pre post. message err = Some m \<and> m = pre @ ''Requested entity was not found'' @ post) \<longrightarrow>
            \<not> apiKeySelected s' \<and> shows_ApiKeySelector s' \<and>
            error s' = Some ''Your API key is invalid or has been revoked. Please select a new key.'') \<and>
         (\<not> (\<exists>m pre post. message err = Some m \<and> m = pre @ ''Requested entity was not found'' @ post) \<longrightarrow>
            apiKeySelected s' = apiKeySelected s \<and> \<not> shows_ApiKeySelector s' \<and>
            error s' = Some (errorMessage_of err) \<and> error_banner s' = Some (errorMessage_of err))"
proof -
  let ?s1 = "forward_progress tr (s\<lparr>isLoading := True, error := None, generatedVideoUrl := None\<rparr>)"
  from handleGenerateVideo_Rejected[OF img key run] after
  have s': "s' = finally_block (catch_block err ?s1)" by simp
  have "str_includes (errorMessage_of err) ''Requested entity was not found'' \<longleftrightarrow>
      (\<exists>m. message err = Some m \<and> str_includes m ''Requested entity was not found'')"
    by (rule errorMessage_of_matches)
  also have "\<dots> \<longleftrightarrow>
      (\<exists>m pre post. message err = Some m \<and> m = pre @ ''Requested entity was not found'' @ post)"
    by (simp only: str_includes_iff) blast
  finally have m: "str_includes (errorMessage_of err) ''Requested entity was not found'' \<longleftrightarrow>
      (\<exists>m pre post. message err = Some m \<and> m = pre @ ''Requested entity was not found'' @ post)" .
  have k: "apiKeySelected ?s1" using key by (simp add: forward_progress_fields)
  show ?thesis
  proof (cases "str_includes (errorMessage_of err) ''Requested entity was not found''")
    case True
    with s' have "\<not> apiKeySelected s'"
      "error s' = Some ''Your API key is invalid or has been revoked. Please select a new key.''"
      by (simp_all add: finally_block_def catch_block_def)
    with True m show ?thesis by (simp add: shows_ApiKeySelector_def)
  next
    case False
    with s' k have "apiKeySelected s'" "error s' = Some (errorMessage_of err)"
      by (simp_all add: finally_block_def catch_block_def)
    with False m key show ?thesis
      by (simp add: shows_ApiKeySelector_def error_banner_def errorMessage_of_nonempty)
  qed
qed

text \<open>
A submission rejected with the signature, and one rejected for another reason.
\<close>

theorem credential_failure_closes_gate_witness:
  "imageFile form_state = Some photo \<and> apiKeySelected form_state \<and>
   message (JsError ''Requested entity was not found.'') =
     Some ([] @ ''Requested entity was not found'' @ ''.'') \<and>
   \<not> apiKeySelected (fst (snd (handleGenerateVideo 5 revoked_env form_state))) \<and>
   error (fst (snd (handleGenerateVideo 5 revoked_env form_state))) =
     Some ''Your API key is invalid or has been revoked. Please select a new key.'' \<and>
   \<not> str_includes ''Quota exceeded.'' ''Requested entity was not found'' \<and>
   apiKeySelected (fst (snd (handleGenerateVideo 5 quota_env form_state))) \<and>
   error (fst (snd (handleGenerateVideo 5 quota_env form_state))) = Some ''Quota exceeded.''"
proof -
  have run1: "generateVideo 5 revoked_env (prompt form_state) photo (aspectRatio form_state) =
     (refused_trace ''Requested entity was not found.'', Rejected (JsError ''Requested entity was not found.''))"
    using revoked_run by (simp add: form_state_submittable)
  have run2: "generateVideo 5 quota_env (prompt form_state) photo (aspectRatio form_state) =
     (refused_trace ''Quota exceeded.'', Rejected (JsError ''Quota exceeded.''))"
    using quota_run by (simp add: form_state_submittable)
  have after1: "handleGenerateVideo 5 revoked_env form_state =
     (fst (handleGenerateVideo 5 revoked_env form_state),
      fst (snd (handleGenerateVideo 5 revoked_env form_state)),
      snd (snd (handleGenerateVideo 5 revoked_env form_state)))" by simp
  have after2: "handleGenerateVideo 5 quota_env form_state =
     (fst (handleGenerateVideo 5 quota_env form_state),
      fst (snd (handleGenerateVideo 5 quota_env form_state)),
      snd (snd (handleGenerateVideo 5 quota_env form_state)))" by simp
  have m1: "message (JsError ''Requested entity was not found.'') =
     Some ([] @ ''Requested entity was not found'' @ ''.'')" by simp
  then have yes: "\<exists>m pre post. message (JsError ''Requested entity was not found.'') = Some m \<and>
      m = pre @ ''Requested entity was not found'' @ post" by blast
  have n: "\<not> str_includes ''Quota exceeded.'' ''Requested entity was not found''"
    by code_simp
  then have no: "\<not> (\<exists>m pre post. message (JsError ''Quota exceeded.'') = Some m \<and>
      m = pre @ ''Requested entity was not found'' @ post)"
    by (simp add: str_includes_iff)
  have q: "errorMessage_of (JsError ''Quota exceeded.'') = ''Quota exceeded.''"
    by (simp add: errorMessage_of_def)
  from credential_failure_closes_gate[OF form_state_submittable(1,2) run1 after1] yes
  have a: "\<not> apiKeySelected (fst (snd (handleGenerateVideo 5 revoked_env form_state)))"
    "error (fst (snd (handleGenerateVideo 5 revoked_env form_state))) =
     Some ''Your API key is invalid or has been revoked. Please select a new key.''"
    by blast+
  from credential_failure_closes_gate[OF form_state_submittable(1,2) run2 after2] no
  have "apiKeySelected (fst (snd (handleGenerateVideo 5 quota_env form_state))) = apiKeySelected form_state"
    "error (fst (snd (handleGenerateVideo 5 quota_env form_state))) = Some (errorMessage_of (JsError ''Quota exceeded.''))"
    by blast+
  with q form_state_submittable(2)
  have b: "apiKeySelected (fst (snd (handleGenerateVideo 5 quota_env form_state)))"
    "error (fst (snd (handleGenerateVideo 5 quota_env form_state))) = Some ''Quota exceeded.''"
    by simp_all
  from form_state_submittable(1,2) m1 a n b show ?thesis by blast
qed

text \<open>
\<^bold>\<open>Claim C5.\<close> Without an image, or with \<open>apiKeySelected\<close> false, \<open>handleGenerateVideo\<close>
performs no event at all (\<open>generateVideo\<close> is not called: no read, no submission, no
poll, no fetch), finishes at once, and changes nothing but the error, which it sets to
the validation message; the loading flag, the panel and the button are as before.
\<close>

theorem submit_needs_image_and_key:
  assumes "imageFile s = None \<or> \<not> apiKeySelected s"
  shows "handleGenerateVideo fuel e s =
           ([], s\<lparr>error := Some (if imageFile s = None then ''Please upload an image first.''
                                  else ''Please select an API key before generating a video.'')\<rparr>,
            Resolved ()) \<and>
         isLoading (fst (snd (handleGenerateVideo fuel e s))) = isLoading s \<and>
         main_panel (fst (snd (handleGenerateVideo fuel e s))) = main_panel s \<and>
         bottom_button (fst (snd (handleGenerateVideo fuel e s))) = bottom_button s"
  using assms
  by (cases "imageFile s") (simp_all add: handleGenerateVideo_def main_panel_def bottom_button_def)

text \<open>
The form without its image, and the form without a key.
\<close>

theorem submit_needs_image_and_key_witness:
  "imageFile (form_state\<lparr>imageFile := None\<rparr>) = None \<and>
   handleGenerateVideo 5 happy_env (form_state\<lparr>imageFile := None\<rparr>) =
     ([], form_state\<lparr>imageFile := None, error := Some ''Please upload an image first.''\<rparr>, Resolved ()) \<and>
   apiKeySelected (form_state\<lparr>apiKeySelected := False\<rparr>) = False \<and>
   handleGenerateVideo 5 happy_env (form_state\<lparr>apiKeySelected := False\<rparr>) =
     ([], form_state\<lparr>apiKeySelected := False,
                     error := Some ''Please select an API key before generating a video.''\<rparr>,
      Resolved ())"
proof -
  have a: "imageFile (form_state\<lparr>imageFile := None\<rparr>) = None" by simp
  have b: "apiKeySelected (form_state\<lparr>apiKeySelected := False\<rparr>) = False"
    "imageFile (form_state\<lparr>apiKeySelected := False\<rparr>) \<noteq> None"
    by (simp_all add: form_state_def)
  from a have "imageFile (form_state\<lparr>imageFile := None\<rparr>) = None \<or> \<not> apiKeySelected (form_state\<lparr>imageFile := None\<rparr>)"
    by simp
  from submit_needs_image_and_key[OF this, of 5 happy_env] a
  have c: "handleGenerateVideo 5 happy_env (form_state\<lparr>imageFile := None\<rparr>) =
     ([], form_state\<lparr>imageFile := None, error := Some ''Please upload an image first.''\<rparr>, Resolved ())"
    by simp
  from b have "imageFile (form_state\<lparr>apiKeySelected := False\<rparr>) = None \<or> \<not> apiKeySelected (form_state\<lparr>apiKeySelected := False\<rparr>)"
    by simp
  from submit_needs_image_and_key[OF this, of 5 happy_env] b(2)
  have d: "handleGenerateVideo 5 happy_env (form_state\<lparr>apiKeySelected := False\<rparr>) =
     ([], form_state\<lparr>apiKeySelected := False,
                     error := Some ''Please select an API key before generating a video.''\<rparr>,
      Resolved ())"
    by simp
  from a b(1) c d show ?thesis by blast
qed




text \<open>
\<^bold>\<open>Claim C7.\<close> The reset, which is the \<open>onClick\<close> of lines 209 to 215, applied in the
Ready state or in the Failed state lands in Idle: the prompt, the image, its preview, the
video reference and the error are cleared, whatever they were, and the other state
variables are untouched. The cleared values do not depend on which of the two states came
before, and a second reset changes nothing.
\<close>

theorem reset_lands_in_idle:
  assumes "is_Ready s \<or> is_Failed s"
  shows "is_Idle (reset s) \<and>
         prompt (reset s) = [] \<and> imageFile (reset s) = None \<and> previewUrl (reset s) = None \<and>
         generatedVideoUrl (reset s) = None \<and> error (reset s) = None \<and>
         apiKeySelected (reset s) = apiKeySelected s \<and> aspectRatio (reset s) = aspectRatio s \<and>
         isLoading (reset s) = isLoading s \<and> loadingMessage (reset s) = loadingMessage s \<and>
         reset (reset s) = reset s"
proof -
  from assms have "\<not> isLoading s" by (auto simp: is_Ready_def is_Failed_def)
  then have "is_Idle (reset s)" by (simp add: is_Idle_def reset_def)
  moreover have "reset (reset s) = reset s" by (simp add: reset_def)
  ultimately show ?thesis by (simp add: reset_def)
qed

text \<open>
The state the happy run leaves, which is Ready, and the state the run without a result
leaves, which is Failed.
\<close>

theorem reset_lands_in_idle_witness:
  "fst (snd (handleGenerateVideo 5 happy_env form_state)) = ready_state \<and>
   is_Ready ready_state \<and>
   is_Idle (reset ready_state) \<and>
   generatedVideoUrl (reset ready_state) = None \<and> imageFile (reset ready_state) = None \<and>
   fst (snd (handleGenerateVideo 5 no_result_env form_state)) = failed_state \<and>
   is_Failed failed_state \<and>
   is_Idle (reset failed_state) \<and>
   error (reset failed_state) = None \<and> prompt (reset failed_state) = []"
proof -
  have a: "is_Ready ready_state" "is_Failed failed_state"
    by (simp_all add: is_Ready_def is_Failed_def ready_state_def failed_state_def form_state_def)
  from a(1) have "is_Ready ready_state \<or> is_Failed ready_state" by simp
  from reset_lands_in_idle[OF this]
  have b: "is_Idle (reset ready_state)" "generatedVideoUrl (reset ready_state) = None"
    "imageFile (reset ready_state) = None"
    by simp_all
  from a(2) have "is_Ready failed_state \<or> is_Failed failed_state" by simp
  from reset_lands_in_idle[OF this]
  have c: "is_Idle (reset failed_state)" "error (reset failed_state) = None"
    "prompt (reset failed_state) = []"
    by simp_all
  from ready_state_reached failed_state_reached a b c show ?thesis by blast
qed

text \<open>
Where the reset can be triggered is a matter of the render, not of the reset: its button
takes the place of the submit button exactly when a video reference is present (line
207), and a click on it then does the reset and nothing else.
\<close>

lemma reset_button_rendered:
  "bottom_button s = CreateAnotherVideo \<longleftrightarrow> truthy (generatedVideoUrl s)"
  by (simp add: bottom_button_def)

lemma user_reset_rendered:
  "user_reset s = (if truthy (generatedVideoUrl s) then Some (reset s) else None)"
  by (simp add: user_reset_def bottom_button_def)

lemma click_reset_button:
  "truthy (generatedVideoUrl s) \<Longrightarrow> click_bottom_button fuel e s = ([], reset s, Resolved ())"
  by (simp add: click_bottom_button_def bottom_button_def)




text \<open>
\<^bold>\<open>Claim C9.\<close> Take a run that has left the loop with a usable link \<open>u\<close>. Its one fetch
is of \<open>u\<close> followed by \<open>&key=\<close> and the key of the environment. If the reply's status is
outside 200 to 299, the run is rejected with the download error that carries the reply's
status text. If it is inside, the run resolves with the object URL made of the reply's
body, and making that object URL is its last event.
\<close>

theorem download_with_credential:
  assumes run: "generateVideo fuel e p f ratio = (tr, r)"
    and obs: "observed_handles tr \<noteq> []"
    and fin: "op_done (last (observed_handles tr))"
    and link: "downloadLink (last (observed_handles tr)) = Some u" "u \<noteq> []"
  shows "filter is_fetch tr =
           [EvFetch (u @ ''&key='' @ API_KEY e) (fetch e (u @ ''&key='' @ API_KEY e))] \<and>
         (\<forall>resp. fetch e (u @ ''&key='' @ API_KEY e) = Inr resp \<and>
                 \<not> (200 \<le> status resp \<and> status resp \<le> 299) \<longrightarrow>
                 r = Rejected (JsError (''Failed to download video: '' @ statusText resp))) \<and>
         (\<forall>resp bytes. fetch e (u @ ''&key='' @ API_KEY e) = Inr resp \<and>
                 200 \<le> status resp \<and> status resp \<le> 299 \<and> blob resp = Inr bytes \<longrightarrow>
                 r = Resolved (createObjectURL e bytes) \<and>
                 last tr = EvObjectURL bytes (createObjectURL e bytes))"
  using run obs fin
proof (cases rule: completed_run)
  case (1 b64 h0 tr1 tr2)
  let ?url = "u @ ''&key='' @ API_KEY e"
  have pre: "filter is_fetch ([EvRead f (readAsDataURL e f), EvProgress (LOADING_MESSAGES ! 0),
           EvSubmit (make_request p b64 f ratio) (Inr h0)] @ tr1) = []"
    using poll_loop_no_fetch[OF 1(1)] by (simp add: filter_none)
  then have ff: "filter is_fetch tr = filter is_fetch tr2" using 1(3) by simp
  from 1(2) show ?thesis
  proof (cases rule: download_cases)
    case no_link
    with link show ?thesis by simp
  next
    case (fetch_failed u' err)
    with link ff show ?thesis by simp
  next
    case (not_ok u' resp)
    with link ff show ?thesis by (auto simp: ok_def)
  next
    case (body_failed u' resp err)
    with link ff show ?thesis by (auto simp: ok_def)
  next
    case (downloaded u' resp bytes)
    with link ff 1(3) show ?thesis by (auto simp: ok_def)
  qed
qed

text \<open>
A reply with status 200, and one with status 403.
\<close>

theorem download_with_credential_witness:
  "observed_handles happy_trace \<noteq> [] \<and>
   op_done (last (observed_handles happy_trace)) \<and>
   downloadLink (last (observed_handles happy_trace)) = Some ''https://videos.example/1?alt=media'' \<and>
   filter is_fetch happy_trace = [EvFetch ''https://videos.example/1?alt=media&key=KEY'' (Inr ok_response)] \<and>
   blob ok_response = Inr ''video-bytes'' \<and>
   last happy_trace = EvObjectURL ''video-bytes'' ''blob:video-1'' \<and>
   observed_handles forbidden_trace \<noteq> [] \<and>
   op_done (last (observed_handles forbidden_trace)) \<and>
   fetch forbidden_env ''https://videos.example/1?alt=media&key=KEY'' = Inr forbidden_response \<and>
   snd (generateVideo 5 forbidden_env ''a cat running'' photo Ratio_16_9) =
     Rejected (JsError ''Failed to download video: Forbidden'')"
proof -
  let ?u = "''https://videos.example/1?alt=media''"
  let ?url = "''https://videos.example/1?alt=media&key=KEY''"
  have k: "?u @ ''&key='' @ API_KEY happy_env = ?url"
    "?u @ ''&key='' @ API_KEY forbidden_env = ?url"
    by (simp_all add: happy_env_def forbidden_env_def)
  have c: "observed_handles happy_trace \<noteq> []" "op_done (last (observed_handles happy_trace))"
    "downloadLink (last (observed_handles happy_trace)) = Some ?u" "?u \<noteq> []"
    by (simp_all add: happy_observed finished_link) (simp add: finished_handle_def)
  have f: "fetch happy_env ?url = Inr ok_response"
    "200 \<le> status ok_response \<and> status ok_response \<le> 299"
    by (simp_all add: happy_env_def ok_response_def)
  note T = download_with_credential[OF happy_run c, unfolded k(1)]
  from T have h1: "filter is_fetch happy_trace = [EvFetch ?url (fetch happy_env ?url)]"
    by (rule conjunct1)
  have bl: "blob ok_response = Inr ''video-bytes''" by (simp add: ok_response_def)
  from T f bl have h2: "last happy_trace = EvObjectURL ''video-bytes'' (createObjectURL happy_env ''video-bytes'')"
    by blast
  from h1 f(1) have h: "filter is_fetch happy_trace = [EvFetch ?url (Inr ok_response)]"
    by (simp only:)
  from h2 have h3: "last happy_trace = EvObjectURL ''video-bytes'' ''blob:video-1''"
    by (simp add: ok_response_def happy_env_def)
  have d: "observed_handles forbidden_trace \<noteq> []" "op_done (last (observed_handles forbidden_trace))"
    "downloadLink (last (observed_handles forbidden_trace)) = Some ?u" "?u \<noteq> []"
    by (simp_all add: forbidden_observed finished_link) (simp add: finished_handle_def)
  have g: "fetch forbidden_env ?url = Inr forbidden_response"
    "\<not> (200 \<le> status forbidden_response \<and> status forbidden_response \<le> 299)"
    by (simp_all add: forbidden_env_def happy_env_def forbidden_response_def)
  note U = download_with_credential[OF forbidden_run d, unfolded k(2)]
  from U g
  have "Rejected (JsError ''Failed to download video: Forbidden'') =
      Rejected (JsError (''Failed to download video: '' @ statusText forbidden_response))"
    by (simp add: forbidden_response_def)
  with forbidden_run have i: "snd (generateVideo 5 forbidden_env ''a cat running'' photo Ratio_16_9) =
     Rejected (JsError ''Failed to download video: Forbidden'')" by simp
  from c(1,2,3) h bl h3 d(1,2) g(1) i show ?thesis by blast
qed

text \<open>
\<^bold>\<open>Claim C10.\<close> Let an attempt pass the preconditions and let its generation call
settle, resolved or rejected. Then the handler finishes, and it leaves the loading flag
false and the loading message empty.
\<close>

theorem loading_ends_with_attempt:
  assumes img: "imageFile s = Some f" and key: "apiKeySelected s"
    and run: "generateVideo fuel e (prompt s) f (aspectRatio s) = (tr, r)"
    and settled: "r \<noteq> Pending"
  shows "snd (snd (handleGenerateVideo fuel e s)) = Resolved () \<and>
         \<not> isLoading (fst (snd (handleGenerateVideo fuel e s))) \<and>
         loadingMessage (fst (snd (handleGenerateVideo fuel e s))) = []"
proof (cases r)
  case Pending
  with settled show ?thesis by simp
next
  case (Resolved url)
  with handleGenerateVideo_Resolved[OF img key] run show ?thesis
    by (simp add: finally_block_def)
next
  case (Rejected err)
  with handleGenerateVideo_Rejected[OF img key] run show ?thesis
    by (simp add: finally_block_def)
qed

text \<open>
A resolved attempt, and a rejected one.
\<close>

theorem loading_ends_with_attempt_witness:
  "imageFile form_state = Some photo \<and> apiKeySelected form_state \<and>
   generateVideo 5 happy_env (prompt form_state) photo (aspectRatio form_state) =
     (happy_trace, Resolved ''blob:video-1'') \<and>
   \<not> isLoading (fst (snd (handleGenerateVideo 5 happy_env form_state))) \<and>
   loadingMessage (fst (snd (handleGenerateVideo 5 happy_env form_state))) = [] \<and>
   generateVideo 5 no_result_env (prompt form_state) photo (aspectRatio form_state) =
     (no_result_trace, Rejected (JsError ''Video generation completed, but no download link was found.'')) \<and>
   \<not> isLoading (fst (snd (handleGenerateVideo 5 no_result_env form_state))) \<and>
   loadingMessage (fst (snd (handleGenerateVideo 5 no_result_env form_state))) = []"
proof -
  have run1: "generateVideo 5 happy_env (prompt form_state) photo (aspectRatio form_state) =
     (happy_trace, Resolved ''blob:video-1'')"
    using happy_run by (simp add: form_state_submittable)
  have run2: "generateVideo 5 no_result_env (prompt form_state) photo (aspectRatio form_state) =
     (no_result_trace, Rejected (JsError ''Video generation completed, but no download link was found.''))"
    using no_result_run by (simp add: form_state_submittable)
  from loading_ends_with_attempt[OF form_state_submittable(1,2) run1]
  have a: "\<not> isLoading (fst (snd (handleGenerateVideo 5 happy_env form_state)))"
    "loadingMessage (fst (snd (handleGenerateVideo 5 happy_env form_state))) = []"
    by simp_all
  from loading_ends_with_attempt[OF form_state_submittable(1,2) run2]
  have b: "\<not> isLoading (fst (snd (handleGenerateVideo 5 no_result_env form_state)))"
    "loadingMessage (fst (snd (handleGenerateVideo 5 no_result_env form_state))) = []"
    by simp_all
  from form_state_submittable(1,2) run1 run2 a b show ?thesis by blast
qed

end
